theory Spec2Isabelle
  imports Main "HOL-Library.Sublist"
begin

section \<open>Strings, formatting and errors\<close>

text \<open>
  A Go \<open>string\<close> is a sequence of bytes and \<open>len\<close> counts bytes; it is modelled as
  \<open>string\<close> (a list of 8-bit characters), so \<open>length\<close> is Go's \<open>len\<close> and a
  "character" of a length or of a slice bound is a byte.
\<close>

definition nl :: char where
  "nl = CHR 0x0A"

definition cr :: char where
  "cr = CHR 0x0D"

text \<open>\<open>strings.Contains(s, substr)\<close>: \<open>substr\<close> occurs in \<open>s\<close> as a contiguous run.\<close>

definition Contains :: "string \<Rightarrow> string \<Rightarrow> bool" where
  "Contains s substr = sublist substr s"

text \<open>The verb \<open>%d\<close> of \<open>fmt\<close>: the decimal digits of an integer, with a sign when negative.\<close>

fun natToDec :: "nat \<Rightarrow> string" where
  "natToDec n =
     (if n < 10 then [''0123456789'' ! n]
      else natToDec (n div 10) @ [''0123456789'' ! (n mod 10)])"

declare natToDec.simps [simp del]

definition itoa :: "int \<Rightarrow> string" where
  "itoa i = (if i < 0 then ''-'' @ natToDec (nat (- i)) else natToDec (nat i))"

text \<open>
  Go errors. \<open>ErrorsNew m\<close> is \<open>errors.New(m)\<close>; \<open>Wrapf p e\<close> is
  \<open>fmt.Errorf(p + ": %w", e)\<close>, which keeps \<open>e\<close> in the chain; \<open>External m\<close> is an
  error value produced outside the runner (an executor's \<open>Result.Error\<close>, the error of
  \<open>os.ReadFile\<close>, \<open>ctx.Err()\<close>) with message \<open>m\<close>. \<open>Error e\<close> is the text of
  \<open>e.Error()\<close>.
\<close>

datatype error =
    ErrorsNew string
  | Wrapf string error
  | External string

fun Error :: "error \<Rightarrow> string" where
  "Error (ErrorsNew m) = m"
| "Error (Wrapf p e) = p @ '': '' @ Error e"
| "Error (External m) = m"

section \<open>Signals and results\<close>

definition SignalCompleted :: string where
  "SignalCompleted = ''COMPLETED''"

definition SignalFailed :: string where
  "SignalFailed = ''FAILED''"

definition SignalReviewDone :: string where
  "SignalReviewDone = ''REVIEW_DONE''"

definition SignalCodexDone :: string where
  "SignalCodexDone = ''CODEX_DONE''"

definition IsTerminalSignal :: "string \<Rightarrow> bool" where
  "IsTerminalSignal signal \<longleftrightarrow> signal = SignalCompleted \<or> signal = SignalFailed"

definition IsReviewDone :: "string \<Rightarrow> bool" where
  "IsReviewDone signal \<longleftrightarrow> signal = SignalReviewDone"

definition IsCodexDone :: "string \<Rightarrow> bool" where
  "IsCodexDone signal \<longleftrightarrow> signal = SignalCodexDone"

text \<open>
  \<open>executor.Result\<close>, as the runner and its tests use it: the accumulated output, the
  detected signal (the empty string when none) and the error (\<open>None\<close> is \<open>nil\<close>).
\<close>

record Result =
  Output :: string
  Signal :: string
  Err :: "error option"

section \<open>Prompts\<close>

text \<open>
  \<open>os.ReadFile\<close> is a parameter of the model: it maps a path to the file's content or to
  the error of the read.
\<close>

definition buildTaskPrompt :: "(string \<Rightarrow> error + string) \<Rightarrow> string \<Rightarrow> int \<Rightarrow> error + string" where
  "buildTaskPrompt readFile planFile iteration =
     (case readFile planFile of
        Inl err \<Rightarrow> Inl (Wrapf ''read plan file'' err)
      | Inr planContent \<Rightarrow>
          Inr (''You are executing a plan autonomously. ''
             @ ''This is iteration '' @ itoa iteration @ ''.'' @ [nl, nl]
             @ ''## Plan'' @ [nl, nl]
             @ planContent
             @ [nl, nl] @ ''## Instructions'' @ [nl, nl]
             @ ''1. Review the plan and identify the next incomplete task'' @ [nl]
             @ ''2. Execute the task, making necessary code changes'' @ [nl]
             @ ''3. Run tests to verify your changes work'' @ [nl]
             @ ''4. Update the plan file to mark completed tasks with [x]'' @ [nl]
             @ ''5. If all tasks are complete, output COMPLETED'' @ [nl]
             @ ''6. If you encounter a blocking issue, output FAILED with explanation'' @ [nl]
             @ ''7. Otherwise, continue to the next task'' @ [nl, nl]
             @ ''Important: Only output COMPLETED or FAILED as terminal signals. ''
             @ ''Do not output these words in any other context.'' @ [nl]))"

definition buildFirstReviewPrompt :: string where
  "buildFirstReviewPrompt =
     ''You are reviewing code changes for quality and correctness.'' @ [nl, nl]
   @ ''## Instructions'' @ [nl, nl]
   @ ''1. Run `git diff` to see all uncommitted changes'' @ [nl]
   @ ''2. Review each changed file for:'' @ [nl]
   @ ''   - Code correctness and logic errors'' @ [nl]
   @ ''   - Error handling completeness'' @ [nl]
   @ ''   - Test coverage for new code'' @ [nl]
   @ ''   - Code style and naming conventions'' @ [nl]
   @ ''   - Potential security issues'' @ [nl]
   @ ''3. If you find issues, fix them directly'' @ [nl]
   @ ''4. Run tests after making fixes'' @ [nl]
   @ ''5. When review is complete and all issues are fixed, output REVIEW_DONE'' @ [nl]
   @ ''6. If you encounter a blocking issue you cannot fix, output FAILED'' @ [nl, nl]
   @ ''Important: Only output REVIEW_DONE or FAILED as terminal signals.'' @ [nl]"

definition buildSecondReviewPrompt :: "string \<Rightarrow> string" where
  "buildSecondReviewPrompt codexFindings =
     ''You are reviewing code based on external analysis findings.'' @ [nl, nl]
   @ ''## Codex Analysis Findings'' @ [nl, nl]
   @ codexFindings
   @ [nl, nl] @ ''## Instructions'' @ [nl, nl]
   @ ''1. Review each finding from the Codex analysis'' @ [nl]
   @ ''2. For valid issues, implement fixes directly'' @ [nl]
   @ ''3. For false positives or non-issues, skip them'' @ [nl]
   @ ''4. Run tests after making fixes'' @ [nl]
   @ ''5. When all valid findings are addressed, output REVIEW_DONE'' @ [nl]
   @ ''6. If you encounter a blocking issue, output FAILED'' @ [nl, nl]
   @ ''Important: Only output REVIEW_DONE or FAILED as terminal signals.'' @ [nl]"

definition buildCodexPrompt :: string where
  "buildCodexPrompt =
     ''Analyze the current git diff for code quality issues.'' @ [nl, nl]
   @ ''Focus on:'' @ [nl]
   @ ''1. Logic errors and bugs'' @ [nl]
   @ ''2. Missing error handling'' @ [nl]
   @ ''3. Security vulnerabilities'' @ [nl]
   @ ''4. Performance issues'' @ [nl]
   @ ''5. Code that doesn'' @ [CHR 0x27] @ ''t match the surrounding style'' @ [nl, nl]
   @ ''For each issue found, provide:'' @ [nl]
   @ ''- File and line number'' @ [nl]
   @ ''- Description of the issue'' @ [nl]
   @ ''- Suggested fix'' @ [nl, nl]
   @ ''If no significant issues are found, state that the code looks good.'' @ [nl, nl]
   @ ''Output CODEX_DONE when analysis is complete.''"

text \<open>
  The two fixed parts that \<open>buildContinuePrompt\<close> writes around the previous output.
\<close>

definition continueHead :: string where
  "continueHead =
     ''Continue from where you left off.'' @ [nl, nl]
   @ ''## Previous Output (last 500 chars)'' @ [nl, nl]"

definition continueTail :: string where
  "continueTail =
     [nl, nl]
   @ ''Continue executing tasks. Remember to output COMPLETED when done or FAILED if blocked.''
   @ [nl]"

definition buildContinuePrompt :: "string \<Rightarrow> string" where
  "buildContinuePrompt previousOutput =
     (let output = previousOutput;
          output = (if length output > 500 then drop (length output - 500) output else output)
      in continueHead @ output @ continueTail)"

section \<open>The runner\<close>

datatype Phase = PhaseTask | PhaseReview | PhaseCodex

definition ModeFull :: string where
  "ModeFull = ''full''"

definition ModeReview :: string where
  "ModeReview = ''review''"

definition ModeCodexOnly :: string where
  "ModeCodexOnly = ''codex-only''"

record Config =
  PlanFile :: string
  Mode :: string
  MaxIterations :: int
  Debug :: bool
  NoColor :: bool

text \<open>
  The \<open>Executor\<close> interface has one method, \<open>Run(ctx, prompt)\<close>, returning a
  \<open>Result\<close>. An executor may keep state between calls (the test double
  \<open>mockExecutor\<close> counts them), so the model hands \<open>Run\<close> the prompts of the earlier
  calls on the same executor together with the current prompt. Any sequence of results
  is the behaviour of some executor of this type.
\<close>

type_synonym Executor = "string list \<Rightarrow> string \<Rightarrow> Result"

text \<open>The test double of \<open>runner_test.go\<close>: it replays a list of results, then errors.\<close>

definition mockExecutor :: "Result list \<Rightarrow> Executor" where
  "mockExecutor results calls prompt =
     (if length calls \<ge> length results
      then \<lparr>Output = [], Signal = [], Err = Some (ErrorsNew ''no more mock results'')\<rparr>
      else results ! length calls)"

record Runner =
  cfg :: Config
  claude :: Executor
  codex :: Executor

text \<open>
  What a run reads from outside: the file system behind \<open>os.ReadFile\<close>, and the
  context. Both loops poll \<open>ctx.Done()\<close> once at the top of every iteration, each poll
  is followed by a call of the claude executor, so the polls of one run are told apart
  by the number of claude calls made before them: \<open>ctxDone n\<close> says whether the context
  is done at the poll that follows \<open>n\<close> calls. \<open>ctxErr\<close> is \<open>ctx.Err()\<close>.
\<close>

record Env =
  readFile :: "string \<Rightarrow> error + string"
  ctxDone :: "nat \<Rightarrow> bool"
  ctxErr :: error

text \<open>
  What a run changes: the prompts each executor has received, in order (the field
  \<open>calls\<close> of the test double), the phase and the messages of the logger (format and
  arguments, all of which are integers here), and the paths handed to \<open>os.ReadFile\<close>.
\<close>

record State =
  claude_calls :: "string list"
  codex_calls :: "string list"
  log_phase :: Phase
  log_messages :: "(string \<times> int list) list"
  file_reads :: "string list"

definition SetPhase :: "Phase \<Rightarrow> State \<Rightarrow> State" where
  "SetPhase phase s = s\<lparr>log_phase := phase\<rparr>"

definition Print :: "string \<Rightarrow> int list \<Rightarrow> State \<Rightarrow> State" where
  "Print format args s = s\<lparr>log_messages := log_messages s @ [(format, args)]\<rparr>"

definition claudeRun :: "Runner \<Rightarrow> string \<Rightarrow> State \<Rightarrow> Result \<times> State" where
  "claudeRun r prompt s =
     (claude r (claude_calls s) prompt, s\<lparr>claude_calls := claude_calls s @ [prompt]\<rparr>)"

definition codexRun :: "Runner \<Rightarrow> string \<Rightarrow> State \<Rightarrow> Result \<times> State" where
  "codexRun r prompt s =
     (codex r (codex_calls s) prompt, s\<lparr>codex_calls := codex_calls s @ [prompt]\<rparr>)"

text \<open>
  How one pass through a loop body ends: with a \<open>return\<close> of the function, or by
  reaching the end of the body, with the value the loop carries to the next iteration.
\<close>

datatype flow = Return "error option" | Next string

text \<open>
  The body of the loop of \<open>runTaskPhase\<close> at iteration \<open>i\<close>; the loop carries
  \<open>lastOutput\<close>.
\<close>

definition taskIteration :: "Env \<Rightarrow> Runner \<Rightarrow> int \<Rightarrow> string \<Rightarrow> State \<Rightarrow> flow \<times> State" where
  "taskIteration env r i lastOutput s =
     (if ctxDone env (length (claude_calls s))
      then (Return (Some (Wrapf ''task phase'' (ctxErr env))), s)
      else
        let s = Print ''task iteration %d/%d'' [i, MaxIterations (cfg r)] s;
            built = (if i = 1 then buildTaskPrompt (readFile env) (PlanFile (cfg r)) i
                     else Inr (buildContinuePrompt lastOutput));
            s = (if i = 1 then s\<lparr>file_reads := file_reads s @ [PlanFile (cfg r)]\<rparr> else s)
        in case built of
             Inl err \<Rightarrow> (Return (Some err), s)
           | Inr prompt \<Rightarrow>
               (case claudeRun r prompt s of
                  (result, s) \<Rightarrow>
                    (case Err result of
                       Some e \<Rightarrow> (Return (Some (Wrapf ''claude execution'' e)), s)
                     | None \<Rightarrow>
                         if IsTerminalSignal (Signal result) then
                           if Signal result = SignalFailed
                           then (Return (Some (ErrorsNew
                                   ''task execution failed (FAILED signal received)'')), s)
                           else (Return None,
                                 Print ''task phase completed (COMPLETED signal received)'' [] s)
                         else (Next (Output result), s))))"

text \<open>
  The loop of \<open>runTaskPhase\<close>, \<open>for i := 1; i <= r.cfg.MaxIterations; i++\<close>, from
  the iteration \<open>i\<close> on. Go's \<open>int\<close> is modelled as \<open>int\<close>: the counter would have to
  pass \<open>2^63 - 1\<close> iterations to wrap.
\<close>

function taskLoop :: "Env \<Rightarrow> Runner \<Rightarrow> int \<Rightarrow> string \<Rightarrow> State \<Rightarrow> error option \<times> State" where
  "taskLoop env r i lastOutput s =
     (if i \<le> MaxIterations (cfg r) then
        case taskIteration env r i lastOutput s of
          (Return err, s) \<Rightarrow> (err, s)
        | (Next lastOutput, s) \<Rightarrow> taskLoop env r (i + 1) lastOutput s
      else (Some (ErrorsNew (''max iterations ('' @ itoa (MaxIterations (cfg r))
                              @ '') reached without completion'')), s))"
  by pat_completeness auto
termination
  by (relation "measure (\<lambda>(env, r, i, lastOutput, s). nat (MaxIterations (cfg r) + 1 - i))") auto

declare taskLoop.simps [simp del]

definition runTaskPhase :: "Env \<Rightarrow> Runner \<Rightarrow> State \<Rightarrow> error option \<times> State" where
  "runTaskPhase env r s = taskLoop env r 1 [] s"

definition maxReviewIterations :: int where
  "maxReviewIterations = 10"

text \<open>
  The body of the loop of \<open>runClaudeReview\<close> at iteration \<open>i\<close>; the loop carries
  \<open>prompt\<close>.
\<close>

definition reviewIteration :: "Env \<Rightarrow> Runner \<Rightarrow> int \<Rightarrow> string \<Rightarrow> State \<Rightarrow> flow \<times> State" where
  "reviewIteration env r i prompt s =
     (if ctxDone env (length (claude_calls s))
      then (Return (Some (Wrapf ''review'' (ctxErr env))), s)
      else
        let s = Print ''review iteration %d/%d'' [i, maxReviewIterations] s in
        case claudeRun r prompt s of
          (result, s) \<Rightarrow>
            (case Err result of
               Some e \<Rightarrow> (Return (Some (Wrapf ''claude execution'' e)), s)
             | None \<Rightarrow>
                 if Signal result = SignalFailed
                 then (Return (Some (ErrorsNew ''review failed (FAILED signal received)'')), s)
                 else if IsReviewDone (Signal result)
                 then (Return None, Print ''review completed (REVIEW_DONE signal received)'' [] s)
                 else (Next (buildContinuePrompt (Output result)), s)))"

text \<open>The loop of \<open>runClaudeReview\<close>, from the iteration \<open>i\<close> on.\<close>

function reviewLoop :: "Env \<Rightarrow> Runner \<Rightarrow> int \<Rightarrow> string \<Rightarrow> State \<Rightarrow> error option \<times> State" where
  "reviewLoop env r i prompt s =
     (if i \<le> maxReviewIterations then
        case reviewIteration env r i prompt s of
          (Return err, s) \<Rightarrow> (err, s)
        | (Next prompt, s) \<Rightarrow> reviewLoop env r (i + 1) prompt s
      else (Some (ErrorsNew (''max review iterations ('' @ itoa maxReviewIterations
                              @ '') reached'')), s))"
  by pat_completeness auto
termination
  by (relation "measure (\<lambda>(env, r, i, prompt, s). nat (maxReviewIterations + 1 - i))") auto

declare reviewLoop.simps [simp del]

definition runClaudeReview :: "Env \<Rightarrow> Runner \<Rightarrow> string \<Rightarrow> State \<Rightarrow> error option \<times> State" where
  "runClaudeReview env r prompt s = reviewLoop env r 1 prompt s"

text \<open>\<open>runCodexPhase\<close> returns the findings and the error.\<close>

definition runCodexPhase :: "Runner \<Rightarrow> State \<Rightarrow> (string \<times> error option) \<times> State" where
  "runCodexPhase r s =
     (case codexRun r buildCodexPrompt s of
        (result, s) \<Rightarrow>
          (case Err result of
             Some e \<Rightarrow> (([], Some (Wrapf ''codex execution'' e)), s)
           | None \<Rightarrow>
               if Output result = []
               then (([], None), Print ''codex found no issues'' [] s)
               else ((Output result, None),
                     Print ''codex analysis complete, found issues to review'' [] s)))"

definition runFull :: "Env \<Rightarrow> Runner \<Rightarrow> State \<Rightarrow> error option \<times> State" where
  "runFull env r s =
     (if PlanFile (cfg r) = [] then (Some (ErrorsNew ''plan file required for full mode''), s)
      else
        let s = SetPhase PhaseTask s;
            s = Print ''starting task execution phase'' [] s in
        case runTaskPhase env r s of
          (Some err, s) \<Rightarrow> (Some (Wrapf ''task phase'' err), s)
        | (None, s) \<Rightarrow>
            let s = SetPhase PhaseReview s;
                s = Print ''starting first review phase'' [] s in
            (case runClaudeReview env r buildFirstReviewPrompt s of
               (Some err, s) \<Rightarrow> (Some (Wrapf ''first review'' err), s)
             | (None, s) \<Rightarrow>
                 let s = SetPhase PhaseCodex s;
                     s = Print ''starting codex analysis phase'' [] s in
                 (case runCodexPhase r s of
                    ((findings, Some err), s) \<Rightarrow> (Some (Wrapf ''codex phase'' err), s)
                  | ((findings, None), s) \<Rightarrow>
                      if findings \<noteq> [] then
                        let s = SetPhase PhaseReview s;
                            s = Print ''starting second review phase (addressing codex findings)'' [] s in
                        (case runClaudeReview env r (buildSecondReviewPrompt findings) s of
                           (Some err, s) \<Rightarrow> (Some (Wrapf ''second review'' err), s)
                         | (None, s) \<Rightarrow>
                             (None, Print ''all phases completed successfully'' [] s))
                      else (None, Print ''all phases completed successfully'' [] s))))"

definition runReviewOnly :: "Env \<Rightarrow> Runner \<Rightarrow> State \<Rightarrow> error option \<times> State" where
  "runReviewOnly env r s =
     (let s = SetPhase PhaseReview s;
          s = Print ''starting review phase'' [] s in
      case runClaudeReview env r buildFirstReviewPrompt s of
        (Some err, s) \<Rightarrow> (Some (Wrapf ''first review'' err), s)
      | (None, s) \<Rightarrow>
          let s = SetPhase PhaseCodex s;
              s = Print ''starting codex analysis phase'' [] s in
          (case runCodexPhase r s of
             ((findings, Some err), s) \<Rightarrow> (Some (Wrapf ''codex phase'' err), s)
           | ((findings, None), s) \<Rightarrow>
               if findings \<noteq> [] then
                 let s = SetPhase PhaseReview s;
                     s = Print ''starting second review phase (addressing codex findings)'' [] s in
                 (case runClaudeReview env r (buildSecondReviewPrompt findings) s of
                    (Some err, s) \<Rightarrow> (Some (Wrapf ''second review'' err), s)
                  | (None, s) \<Rightarrow>
                      (None, Print ''review phases completed successfully'' [] s))
               else (None, Print ''review phases completed successfully'' [] s)))"

definition runCodexOnly :: "Env \<Rightarrow> Runner \<Rightarrow> State \<Rightarrow> error option \<times> State" where
  "runCodexOnly env r s =
     (let s = SetPhase PhaseCodex s;
          s = Print ''starting codex analysis phase'' [] s in
      case runCodexPhase r s of
        ((findings, Some err), s) \<Rightarrow> (Some (Wrapf ''codex phase'' err), s)
      | ((findings, None), s) \<Rightarrow>
          if findings \<noteq> [] then
            let s = SetPhase PhaseReview s;
                s = Print ''starting review phase (addressing codex findings)'' [] s in
            (case runClaudeReview env r (buildSecondReviewPrompt findings) s of
               (Some err, s) \<Rightarrow> (Some (Wrapf ''review'' err), s)
             | (None, s) \<Rightarrow>
                 (None, Print ''codex phases completed successfully'' [] s))
          else (None, Print ''codex phases completed successfully'' [] s))"

definition Run :: "Env \<Rightarrow> Runner \<Rightarrow> State \<Rightarrow> error option \<times> State" where
  "Run env r s =
     (if Mode (cfg r) = ModeFull then runFull env r s
      else if Mode (cfg r) = ModeReview then runReviewOnly env r s
      else if Mode (cfg r) = ModeCodexOnly then runCodexOnly env r s
      else (Some (ErrorsNew (''unknown mode: '' @ Mode (cfg r))), s))"

section \<open>Test fixtures\<close>

text \<open>
  The fixtures of \<open>runner_test.go\<close>: a plan file that can be read, a context that is
  never cancelled, fresh executors and logger, and a runner built from a mode, an
  iteration cap and the two executors.
\<close>

definition testEnv :: Env where
  "testEnv =
     \<lparr>readFile = (\<lambda>path. if path = ''plan.md'' then Inr ''# Plan''
                            else Inl (External ''no such file or directory'')),
      ctxDone = (\<lambda>n. False),
      ctxErr = External ''context canceled''\<rparr>"

definition testState :: State where
  "testState =
     \<lparr>claude_calls = [], codex_calls = [], log_phase = PhaseTask, log_messages = [],
      file_reads = []\<rparr>"

definition testRunner :: "string \<Rightarrow> int \<Rightarrow> Executor \<Rightarrow> Executor \<Rightarrow> Runner" where
  "testRunner mode n claudeExec codexExec =
     \<lparr>cfg = \<lparr>PlanFile = ''plan.md'', Mode = mode, MaxIterations = n,
              Debug = False, NoColor = False\<rparr>,
      claude = claudeExec, codex = codexExec\<rparr>"

text \<open>An executor that answers every call with the same result.\<close>

definition always :: "Result \<Rightarrow> Executor" where
  "always res calls prompt = res"

text \<open>
  The result of call number \<open>k\<close> (from 0) of an executor that has received the prompts
  \<open>calls\<close>: what \<open>Run\<close> returned for prompt \<open>calls ! k\<close> after the \<open>k\<close> earlier ones.
\<close>

definition resultAt :: "Executor \<Rightarrow> string list \<Rightarrow> nat \<Rightarrow> Result" where
  "resultAt ex calls k = ex (take k calls) (calls ! k)"

section \<open>What follows the Analysis\<close>

text \<open>
  The follow-up of an Analysis result \<open>res\<close>, as the pipeline tests observe it on the
  claude executor: \<open>before\<close> are the prompts claude had received when the Analysis ran,
  \<open>out\<close> is what the pipeline returns. With empty findings the pipeline succeeds and
  claude is not called again. With findings, the calls that follow are those of one
  Review phase: at most 10, the first (made unless the context is done) with the
  second-review prompt, which contains the findings, every later one with the continue
  prompt of the result before it; and when the first of them is answered with
  \<open>REVIEW_DONE\<close> it is the only one and the pipeline succeeds.
\<close>

definition followUpReview ::
  "Env \<Rightarrow> Runner \<Rightarrow> string list \<Rightarrow> Result \<Rightarrow> error option \<times> State \<Rightarrow> bool" where
  "followUpReview env r before res out \<longleftrightarrow>
     (let calls = claude_calls (snd out); n = length before in
      take n calls = before \<and>
      (Output res = [] \<longrightarrow> fst out = None \<and> calls = before) \<and>
      (Output res \<noteq> [] \<longrightarrow>
         length calls \<le> n + 10
       \<and> (\<not> ctxDone env n \<longrightarrow>
            n < length calls \<and> calls ! n = buildSecondReviewPrompt (Output res))
       \<and> Contains (buildSecondReviewPrompt (Output res)) (Output res)
       \<and> (\<forall>k < length calls. n \<le> k \<and> Suc k < length calls \<longrightarrow>
            calls ! Suc k = buildContinuePrompt (Output (resultAt (claude r) calls k)))
       \<and> (\<not> ctxDone env n
            \<and> Err (claude r before (buildSecondReviewPrompt (Output res))) = None
            \<and> Signal (claude r before (buildSecondReviewPrompt (Output res)))
                 = SignalReviewDone \<longrightarrow>
            length calls = n + 1 \<and> fst out = None)))"

section \<open>The stream reader\<close>

text \<open>
  How a byte stream ends: at the end of the input, or with an error of the underlying
  reader. A stream is the bytes still to come and its ending.
\<close>

datatype ending = EOF | ReadError error

type_synonym stream = "string \<times> ending"

text \<open>
  \<open>bufio.Reader.ReadString(delim)\<close>: the bytes up to and including the first \<open>delim\<close>
  and no error; when the stream ends first, the bytes read before the end together with
  the ending. The third component is the stream that remains.
\<close>

definition ReadString :: "char \<Rightarrow> stream \<Rightarrow> string \<times> ending option \<times> stream" where
  "ReadString delim rd =
     (case rd of (buf, fin) \<Rightarrow>
        if delim \<in> set buf
        then (takeWhile (\<lambda>c. c \<noteq> delim) buf @ [delim], None,
              (tl (dropWhile (\<lambda>c. c \<noteq> delim) buf), fin))
        else (buf, Some fin, ([], fin)))"

text \<open>\<open>strings.TrimRight(s, cutset)\<close> removes every trailing byte that is in \<open>cutset\<close>.\<close>

definition TrimRight :: "string \<Rightarrow> string \<Rightarrow> string" where
  "TrimRight s cutset = rev (dropWhile (\<lambda>c. c \<in> set cutset) (rev s))"

text \<open>
  The loop of \<open>readLines\<close>. \<open>cancelled n\<close> says whether the context is done at the poll
  before read number \<open>n\<close> (from 0) and \<open>cause\<close> is \<open>ctx.Err()\<close>; \<open>handled\<close> collects
  the arguments of the calls of \<open>handler\<close>, in order. The result is the returned error
  and those calls.
\<close>

function readLoop ::
  "(nat \<Rightarrow> bool) \<Rightarrow> error \<Rightarrow> nat \<Rightarrow> stream \<Rightarrow> string list \<Rightarrow> error option \<times> string list" where
  "readLoop cancelled cause n rd handled =
     (if cancelled n then (Some cause, handled)
      else
        case ReadString nl rd of
          (line, err, rd') \<Rightarrow>
            let handled = (if length line > 0 then handled @ [TrimRight line [cr, nl]]
                           else handled)
            in case err of
                 Some EOF \<Rightarrow> (None, handled)
               | Some (ReadError e) \<Rightarrow> (Some e, handled)
               | None \<Rightarrow> readLoop cancelled cause (n + 1) rd' handled)"
  by pat_completeness auto
termination
proof (relation "measure (\<lambda>(cancelled, cause, n, rd, handled). length (fst rd))")
  show "wf (measure (\<lambda>(cancelled, cause, n, rd, handled). length (fst rd)))"
    by simp
next
  fix cancelled :: "nat \<Rightarrow> bool" and cause :: error and n :: nat and rd :: stream
    and handled :: "string list" and line :: string and y :: "ending option \<times> stream"
    and err :: "ending option" and rd' :: stream and handled' :: "string list"
  assume "(line, y) = ReadString nl rd" and "(err, rd') = y" and "err = None"
  then have r: "ReadString nl rd = (line, None, rd')" by simp
  obtain buf fin where rd: "rd = (buf, fin)" by (cases rd)
  have m: "nl \<in> set buf" and rd': "rd' = (tl (dropWhile (\<lambda>c. c \<noteq> nl) buf), fin)"
    using r unfolding rd ReadString_def by (auto split: if_splits)
  have "dropWhile (\<lambda>c. c \<noteq> nl) buf \<noteq> []"
    using m by (simp add: dropWhile_eq_Nil_conv)
  moreover have "length (dropWhile (\<lambda>c. c \<noteq> nl) buf) \<le> length buf"
    by (rule length_dropWhile_le)
  ultimately show "((cancelled, cause, n + 1, rd', handled'), (cancelled, cause, n, rd, handled))
        \<in> measure (\<lambda>(cancelled, cause, n, rd, handled). length (fst rd))"
    unfolding rd rd' by (cases "dropWhile (\<lambda>c. c \<noteq> nl) buf") auto
qed

declare readLoop.simps [simp del]

definition readLines :: "(nat \<Rightarrow> bool) \<Rightarrow> error \<Rightarrow> stream \<Rightarrow> error option \<times> string list" where
  "readLines cancelled cause r = readLoop cancelled cause 0 r []"

text \<open>
  What the specification asks of one line of the stream: its terminator, a bare
  \<open>\n\<close> or \<open>\r\n\<close>, is stripped, and nothing else is removed. This is also what
  \<open>bufio.ScanLines\<close> does, which the reader is documented to match.
\<close>

definition stripTerminator :: "string \<Rightarrow> string" where
  "stripTerminator line =
     (if suffix [cr, nl] line then take (length line - 2) line
      else if suffix [nl] line then take (length line - 1) line
      else line)"

text \<open>
  The lines of a byte stream, each with its terminating \<open>\n\<close>; a last line without one
  is a line when it is not empty. \<open>cur\<close> holds the bytes of the line being read.
\<close>

primrec splitAcc :: "string \<Rightarrow> string \<Rightarrow> string list" where
  "splitAcc cur [] = (if cur = [] then [] else [cur])"
| "splitAcc cur (c # cs) =
     (if c = nl then (cur @ [nl]) # splitAcc [] cs else splitAcc (cur @ [c]) cs)"

definition splitLines :: "string \<Rightarrow> string list" where
  "splitLines buf = splitAcc [] buf"

section \<open>The progress log\<close>

text \<open>
  Modelled from the spec: the Go source of \<open>NewLogger\<close> and \<open>isProgressCompleted\<close>
  (\<open>pkg/progress/progress.go\<close>) is not among the sources. The model follows section 4.5
  of the specification and the decision table and the description of
  \<open>isProgressCompleted\<close> in \<open>docs/plans/completed/20260218-progress-fresh-start.md\<close>:
  the completion footer is looked for as the marker \<open>Completed:\<close> in the last 256 bytes
  of the file; a missing file is not completed. A file is its content, \<open>None\<close> when it
  does not exist.
\<close>

definition isProgressCompleted :: "string option \<Rightarrow> bool" where
  "isProgressCompleted file =
     (case file of
        None \<Rightarrow> False
      | Some content \<Rightarrow> Contains (drop (length content - 256) content) ''Completed:'')"

text \<open>
  The outcome of opening the log: the lock is held by another writer, or the log is open
  with the given file content and restart flag.
\<close>

datatype opened = LockContention | Opened string bool

text \<open>
  Modelled from the spec: \<open>NewLogger\<close> after the file is opened (created empty when
  missing) and the lock is asked for. The texts of the header and of the restart
  separator are parameters: they hold the time of the run.
\<close>

definition NewLogger :: "string \<Rightarrow> string \<Rightarrow> bool \<Rightarrow> string option \<Rightarrow> opened" where
  "NewLogger header separator lockedByOther file =
     (if lockedByOther then LockContention
      else
        let content = (case file of None \<Rightarrow> [] | Some c \<Rightarrow> c) in
        if length content = 0 then Opened (content @ header) False
        else if isProgressCompleted (Some content) then Opened ([] @ header) False
        else Opened (content @ separator) True)"

section \<open>The continue prompt's window\<close>

text \<open>
  The shape of the continue prompt: the fixed head, then the previous output when it has
  at most 500 bytes and otherwise exactly its last 500, then the fixed tail.
\<close>

lemma buildContinuePrompt_shape:
  "(length s \<le> 500 \<longrightarrow> buildContinuePrompt s = continueHead @ s @ continueTail) \<and>
   (500 < length s \<longrightarrow>
      (\<exists>w. buildContinuePrompt s = continueHead @ w @ continueTail
           \<and> length w = 500 \<and> suffix w s \<and> w = drop (length s - 500) s))"
  by (simp add: buildContinuePrompt_def Let_def suffix_drop)

section \<open>The Task phase\<close>

lemma taskIteration_first:
  assumes "\<not> ctxDone env (length (claude_calls s))"
    and "buildTaskPrompt (readFile env) (PlanFile (cfg r)) 1 = Inr p"
    and "Err (claude r (claude_calls s) p) = None"
  shows "Signal (claude r (claude_calls s) p) = SignalCompleted \<Longrightarrow>
           fst (taskIteration env r 1 lastO s) = Return None"
    and "\<not> IsTerminalSignal (Signal (claude r (claude_calls s) p)) \<Longrightarrow>
           fst (taskIteration env r 1 lastO s) = Next (Output (claude r (claude_calls s) p))"
    and "claude_calls (snd (taskIteration env r 1 lastO s)) = claude_calls s @ [p]"
  using assms
  by (simp_all add: taskIteration_def Let_def claudeRun_def Print_def IsTerminalSignal_def
       SignalFailed_def SignalCompleted_def)

lemma taskIteration_later:
  assumes "\<not> ctxDone env (length (claude_calls s))" and "i \<noteq> 1"
    and "Err (claude r (claude_calls s) (buildContinuePrompt lastO)) = None"
    and "\<not> IsTerminalSignal (Signal (claude r (claude_calls s) (buildContinuePrompt lastO)))"
  shows "fst (taskIteration env r i lastO s)
           = Next (Output (claude r (claude_calls s) (buildContinuePrompt lastO)))"
    and "claude_calls (snd (taskIteration env r i lastO s))
           = claude_calls s @ [buildContinuePrompt lastO]"
  using assms
  by (simp_all add: taskIteration_def Let_def claudeRun_def Print_def)

lemma taskLoop_never_terminal:
  assumes never: "\<forall>h q. Err (claude r h q) = None \<and> \<not> IsTerminalSignal (Signal (claude r h q))"
    and live: "\<forall>n. \<not> ctxDone env n"
  shows "1 < i \<Longrightarrow> k = nat (MaxIterations (cfg r) + 1 - i) \<Longrightarrow>
         fst (taskLoop env r i lastO s) =
           Some (ErrorsNew (''max iterations ('' @ itoa (MaxIterations (cfg r))
                              @ '') reached without completion''))
       \<and> length (claude_calls (snd (taskLoop env r i lastO s))) = length (claude_calls s) + k"
proof (induction k arbitrary: i lastO s)
  case 0
  then have "\<not> i \<le> MaxIterations (cfg r)" by simp
  then show ?case by (simp add: taskLoop.simps [of env r i])
next
  case (Suc k)
  then have le: "i \<le> MaxIterations (cfg r)" and i1: "i \<noteq> 1" by simp_all
  let ?res = "claude r (claude_calls s) (buildContinuePrompt lastO)"
  obtain s1 where it: "taskIteration env r i lastO s = (Next (Output ?res), s1)"
    and calls: "claude_calls s1 = claude_calls s @ [buildContinuePrompt lastO]"
    using taskIteration_later [of env s i r lastO] never live i1
    by (cases "taskIteration env r i lastO s") simp
  have "k = nat (MaxIterations (cfg r) + 1 - (i + 1))" using Suc.prems by simp
  moreover have "1 < i + 1" using Suc.prems by simp
  ultimately have "fst (taskLoop env r (i + 1) (Output ?res) s1) =
           Some (ErrorsNew (''max iterations ('' @ itoa (MaxIterations (cfg r))
                              @ '') reached without completion''))
       \<and> length (claude_calls (snd (taskLoop env r (i + 1) (Output ?res) s1))) = length (claude_calls s1) + k"
    using Suc.IH by blast
  then show ?case
    using le it calls by (simp add: taskLoop.simps [of env r i])
qed

lemma itoa_3: "itoa 3 = ''3''"
  by (simp add: itoa_def natToDec.simps)

lemma signals_distinct:
  "SignalCompleted \<noteq> SignalFailed" "SignalFailed \<noteq> SignalCompleted"
  "SignalReviewDone \<noteq> SignalFailed" "SignalFailed \<noteq> SignalReviewDone"
  "SignalReviewDone \<noteq> SignalCompleted" "SignalCompleted \<noteq> SignalReviewDone"
  by (simp_all add: SignalCompleted_def SignalFailed_def SignalReviewDone_def)

lemma taskIteration_calls:
  "(claude_calls (snd (taskIteration env r i lastO s)) = claude_calls s
      \<and> (\<exists>e. fst (taskIteration env r i lastO s) = Return (Some e)))
   \<or> (\<exists>p. claude_calls (snd (taskIteration env r i lastO s)) = claude_calls s @ [p]
      \<and> fst (taskIteration env r i lastO s) =
           (case Err (claude r (claude_calls s) p) of
              Some e \<Rightarrow> Return (Some (Wrapf ''claude execution'' e))
            | None \<Rightarrow>
                if Signal (claude r (claude_calls s) p) = SignalFailed
                then Return (Some (ErrorsNew ''task execution failed (FAILED signal received)''))
                else if Signal (claude r (claude_calls s) p) = SignalCompleted
                then Return None
                else Next (Output (claude r (claude_calls s) p))))"
proof (cases "ctxDone env (length (claude_calls s))")
  case True
  then show ?thesis by (simp add: taskIteration_def)
next
  case live: False
  show ?thesis
  proof (cases "if i = 1 then buildTaskPrompt (readFile env) (PlanFile (cfg r)) i
                else Inr (buildContinuePrompt lastO)")
    case (Inl err)
    then have "claude_calls (snd (taskIteration env r i lastO s)) = claude_calls s"
      and "fst (taskIteration env r i lastO s) = Return (Some err)"
      using live by (simp_all add: taskIteration_def Let_def Print_def)
    then show ?thesis by blast
  next
    case (Inr p)
    then have "claude_calls (snd (taskIteration env r i lastO s)) = claude_calls s @ [p]"
      and "fst (taskIteration env r i lastO s) =
           (case Err (claude r (claude_calls s) p) of
              Some e \<Rightarrow> Return (Some (Wrapf ''claude execution'' e))
            | None \<Rightarrow>
                if Signal (claude r (claude_calls s) p) = SignalFailed
                then Return (Some (ErrorsNew ''task execution failed (FAILED signal received)''))
                else if Signal (claude r (claude_calls s) p) = SignalCompleted
                then Return None
                else Next (Output (claude r (claude_calls s) p)))"
      using live
      by (simp_all add: taskIteration_def Let_def claudeRun_def Print_def IsTerminalSignal_def
            signals_distinct split: option.splits)
    then show ?thesis by blast
  qed
qed

lemma taskLoop_stop:
  "\<not> i \<le> MaxIterations (cfg r) \<Longrightarrow>
   taskLoop env r i lastO s =
     (Some (ErrorsNew (''max iterations ('' @ itoa (MaxIterations (cfg r))
                         @ '') reached without completion'')), s)"
  by (simp add: taskLoop.simps [of env r i])

lemma taskLoop_Return:
  "i \<le> MaxIterations (cfg r) \<Longrightarrow> taskIteration env r i lastO s = (Return e, s1) \<Longrightarrow>
   taskLoop env r i lastO s = (e, s1)"
  by (simp add: taskLoop.simps [of env r i])

lemma taskLoop_Next:
  "i \<le> MaxIterations (cfg r) \<Longrightarrow> taskIteration env r i lastO s = (Next out, s1) \<Longrightarrow>
   taskLoop env r i lastO s = taskLoop env r (i + 1) out s1"
  by (simp add: taskLoop.simps [of env r i])

lemma taskLoop_calls:
  "take (length (claude_calls s)) (claude_calls (snd (taskLoop env r i lastO s))) = claude_calls s
   \<and> length (claude_calls s) \<le> length (claude_calls (snd (taskLoop env r i lastO s)))"
proof (induction env r i lastO s rule: taskLoop.induct)
  case (1 env r i lastO s)
  show ?case
  proof (cases "i \<le> MaxIterations (cfg r)")
    case False
    then show ?thesis by (simp add: taskLoop_stop)
  next
    case le: True
    obtain f s1 where it: "taskIteration env r i lastO s = (f, s1)"
      by (cases "taskIteration env r i lastO s")
    have c1: "take (length (claude_calls s)) (claude_calls s1) = claude_calls s"
      "length (claude_calls s) \<le> length (claude_calls s1)"
      using taskIteration_calls [of env r i lastO s] it by auto
    show ?thesis
    proof (cases f)
      case (Return e)
      then show ?thesis using le it c1 by (simp add: taskLoop_Return)
    next
      case (Next out)
      let ?c = "claude_calls (snd (taskLoop env r (i + 1) out s1))"
      have ih: "take (length (claude_calls s1)) ?c = claude_calls s1"
        "length (claude_calls s1) \<le> length ?c"
        using "1.IH" [OF le it [symmetric] Next] by simp_all
      have eq: "taskLoop env r i lastO s = taskLoop env r (i + 1) out s1"
        using le it Next by (simp add: taskLoop_Next)
      have "take (length (claude_calls s)) ?c
              = take (length (claude_calls s)) (take (length (claude_calls s1)) ?c)"
        using c1(2) by (simp add: min_def)
      also have "\<dots> = claude_calls s" unfolding ih(1) using c1(1) by simp
      finally show ?thesis unfolding eq using c1(2) ih(2) by simp
    qed
  qed
qed

lemma taskLoop_failed:
  "\<forall>k. length (claude_calls s) \<le> k
       \<and> k < length (claude_calls (snd (taskLoop env r i lastO s)))
       \<and> Err (resultAt (claude r) (claude_calls (snd (taskLoop env r i lastO s))) k) = None
       \<and> Signal (resultAt (claude r) (claude_calls (snd (taskLoop env r i lastO s))) k)
            = SignalFailed \<longrightarrow>
      Suc k = length (claude_calls (snd (taskLoop env r i lastO s)))
    \<and> fst (taskLoop env r i lastO s)
        = Some (ErrorsNew ''task execution failed (FAILED signal received)'')"
  (is "?F env r i lastO s")
proof (induction env r i lastO s rule: taskLoop.induct)
  case (1 env r i lastO s)
  let ?n = "length (claude_calls s)"
  show ?case
  proof (cases "i \<le> MaxIterations (cfg r)")
    case False
    then show ?thesis by (auto simp: taskLoop_stop)
  next
    case le: True
    obtain f s1 where it: "taskIteration env r i lastO s = (f, s1)"
      by (cases "taskIteration env r i lastO s")
    consider (quiet) e where "claude_calls s1 = claude_calls s" "f = Return (Some e)"
      | (call) p where "claude_calls s1 = claude_calls s @ [p]"
          "f = (case Err (claude r (claude_calls s) p) of
              Some e \<Rightarrow> Return (Some (Wrapf ''claude execution'' e))
            | None \<Rightarrow>
                if Signal (claude r (claude_calls s) p) = SignalFailed
                then Return (Some (ErrorsNew ''task execution failed (FAILED signal received)''))
                else if Signal (claude r (claude_calls s) p) = SignalCompleted
                then Return None
                else Next (Output (claude r (claude_calls s) p)))"
      using taskIteration_calls [of env r i lastO s] it by auto
    then show ?thesis
    proof cases
      case quiet
      then show ?thesis using le it by (auto simp: taskLoop_Return)
    next
      case (call p)
      let ?res = "claude r (claude_calls s) p"
      show ?thesis
      proof (cases f)
        case (Return e)
        have eq: "taskLoop env r i lastO s = (e, s1)"
          using le it Return by (simp add: taskLoop_Return)
        have r0: "resultAt (claude r) (claude_calls s @ [p]) ?n = ?res"
          by (simp add: resultAt_def)
        have k: "\<And>k. ?n \<le> k \<Longrightarrow> k < Suc ?n \<Longrightarrow> k = ?n" by simp
        show ?thesis
          unfolding eq using call Return r0
          by (auto dest!: k split: option.splits if_splits)
      next
        case (Next out)
        let ?c = "claude_calls (snd (taskLoop env r (i + 1) out s1))"
        have eq: "taskLoop env r i lastO s = taskLoop env r (i + 1) out s1"
          using le it Next by (simp add: taskLoop_Next)
        have ih: "?F env r (i + 1) out s1"
          using "1.IH" [OF le it [symmetric] Next] .
        have inner: "take (Suc ?n) ?c = claude_calls s @ [p]" "Suc ?n \<le> length ?c"
          using taskLoop_calls [of s1 env r "i + 1" out] call(1) by simp_all
        have "take ?n ?c = take ?n (take (Suc ?n) ?c)" by simp
        also have "\<dots> = claude_calls s" unfolding inner(1) by simp
        finally have a: "take ?n ?c = claude_calls s" .
        have "?c ! ?n = take (Suc ?n) ?c ! ?n" by simp
        also have "\<dots> = p" unfolding inner(1) by simp
        finally have b: "?c ! ?n = p" .
        have r0: "resultAt (claude r) ?c ?n = ?res"
          using a b by (simp add: resultAt_def)
        have res: "Err ?res = None" "Signal ?res \<noteq> SignalFailed"
          using call(2) Next by (auto split: option.splits if_splits)
        show ?thesis
          unfolding eq
        proof (intro allI impI)
          fix k assume k: "?n \<le> k \<and> k < length ?c
             \<and> Err (resultAt (claude r) ?c k) = None
             \<and> Signal (resultAt (claude r) ?c k) = SignalFailed"
          then have "k \<noteq> ?n" using r0 res by auto
          then have "length (claude_calls s1) \<le> k" using k call(1) by simp
          then show "Suc k = length ?c
             \<and> fst (taskLoop env r (i + 1) out s1)
                  = Some (ErrorsNew ''task execution failed (FAILED signal received)'')"
            using ih k by blast
        qed
      qed
    qed
  qed
qed

section \<open>The Review phase\<close>

lemma reviewIteration_done:
  "ctxDone env (length (claude_calls s)) \<Longrightarrow>
   reviewIteration env r i prompt s = (Return (Some (Wrapf ''review'' (ctxErr env))), s)"
  by (simp add: reviewIteration_def)

lemma reviewIteration_live:
  assumes "\<not> ctxDone env (length (claude_calls s))"
  shows "claude_calls (snd (reviewIteration env r i prompt s)) = claude_calls s @ [prompt]"
    and "fst (reviewIteration env r i prompt s) =
           (case Err (claude r (claude_calls s) prompt) of
              Some e \<Rightarrow> Return (Some (Wrapf ''claude execution'' e))
            | None \<Rightarrow>
                if Signal (claude r (claude_calls s) prompt) = SignalFailed
                then Return (Some (ErrorsNew ''review failed (FAILED signal received)''))
                else if Signal (claude r (claude_calls s) prompt) = SignalReviewDone
                then Return None
                else Next (buildContinuePrompt (Output (claude r (claude_calls s) prompt))))"
  using assms
  by (simp_all add: reviewIteration_def Let_def claudeRun_def Print_def IsReviewDone_def
        split: option.splits)

lemma reviewLoop_stop:
  "\<not> i \<le> maxReviewIterations \<Longrightarrow>
   reviewLoop env r i prompt s =
     (Some (ErrorsNew (''max review iterations ('' @ itoa maxReviewIterations @ '') reached'')), s)"
  by (simp add: reviewLoop.simps [of env r i])

lemma reviewLoop_Return:
  "i \<le> maxReviewIterations \<Longrightarrow> reviewIteration env r i prompt s = (Return e, s1) \<Longrightarrow>
   reviewLoop env r i prompt s = (e, s1)"
  by (simp add: reviewLoop.simps [of env r i])

lemma reviewLoop_Next:
  "i \<le> maxReviewIterations \<Longrightarrow> reviewIteration env r i prompt s = (Next p, s1) \<Longrightarrow>
   reviewLoop env r i prompt s = reviewLoop env r (i + 1) p s1"
  by (simp add: reviewLoop.simps [of env r i])

text \<open>
  The calls of a review loop extend the earlier ones, by at most the remaining
  iterations, and the first new call has the loop's prompt.
\<close>

lemma reviewLoop_calls:
  "take (length (claude_calls s)) (claude_calls (snd (reviewLoop env r i prompt s))) = claude_calls s
   \<and> length (claude_calls s) \<le> length (claude_calls (snd (reviewLoop env r i prompt s)))
   \<and> length (claude_calls (snd (reviewLoop env r i prompt s)))
        \<le> length (claude_calls s) + nat (maxReviewIterations + 1 - i)
   \<and> (length (claude_calls s) < length (claude_calls (snd (reviewLoop env r i prompt s))) \<longrightarrow>
        claude_calls (snd (reviewLoop env r i prompt s)) ! length (claude_calls s) = prompt)"
proof (induction env r i prompt s rule: reviewLoop.induct)
  case (1 env r i prompt s)
  show ?case
  proof (cases "i \<le> maxReviewIterations")
    case False
    then show ?thesis by (auto simp: reviewLoop_stop)
  next
    case le: True
    show ?thesis
    proof (cases "ctxDone env (length (claude_calls s))")
      case True
      then show ?thesis using le by (simp add: reviewIteration_done reviewLoop_Return)
    next
      case False
      obtain f s1 where it: "reviewIteration env r i prompt s = (f, s1)"
        by (cases "reviewIteration env r i prompt s")
      have c1: "claude_calls s1 = claude_calls s @ [prompt]"
        using reviewIteration_live(1) [OF False, of r i prompt] it by simp
      show ?thesis
      proof (cases f)
        case (Return e)
        then show ?thesis using le it c1 by (simp add: reviewLoop_Return)
      next
        case (Next p)
        let ?c = "claude_calls (snd (reviewLoop env r (i + 1) p s1))"
        have ih: "take (length (claude_calls s1)) ?c = claude_calls s1"
          "length (claude_calls s1) \<le> length ?c"
          "length ?c \<le> length (claude_calls s1) + nat (maxReviewIterations + 1 - (i + 1))"
          using "1.IH" [OF le it [symmetric] Next] by simp_all
        have eq: "reviewLoop env r i prompt s = reviewLoop env r (i + 1) p s1"
          using le it Next by (simp add: reviewLoop_Next)
        have t: "take (Suc (length (claude_calls s))) ?c = claude_calls s @ [prompt]"
          using ih(1) c1 by simp
        have lt: "length (claude_calls s) < length ?c" using ih(2) c1 by simp
        have "take (length (claude_calls s)) ?c
                = take (length (claude_calls s)) (take (Suc (length (claude_calls s))) ?c)"
          by simp
        also have "\<dots> = claude_calls s" unfolding t by simp
        finally have a: "take (length (claude_calls s)) ?c = claude_calls s" .
        have "?c ! length (claude_calls s)
                = take (Suc (length (claude_calls s))) ?c ! length (claude_calls s)"
          by simp
        also have "\<dots> = prompt" unfolding t by simp
        finally have b: "?c ! length (claude_calls s) = prompt" .
        show ?thesis unfolding eq using a b lt ih(3) c1 le by simp
      qed
    qed
  qed
qed

lemma reviewLoop_results:
  "(\<forall>k. length (claude_calls s) \<le> k
         \<and> Suc k < length (claude_calls (snd (reviewLoop env r i prompt s))) \<longrightarrow>
        Err (resultAt (claude r) (claude_calls (snd (reviewLoop env r i prompt s))) k) = None
      \<and> Signal (resultAt (claude r) (claude_calls (snd (reviewLoop env r i prompt s))) k)
           \<noteq> SignalFailed
      \<and> Signal (resultAt (claude r) (claude_calls (snd (reviewLoop env r i prompt s))) k)
           \<noteq> SignalReviewDone
      \<and> claude_calls (snd (reviewLoop env r i prompt s)) ! Suc k =
          buildContinuePrompt
            (Output (resultAt (claude r) (claude_calls (snd (reviewLoop env r i prompt s))) k)))
   \<and> (fst (reviewLoop env r i prompt s) = None \<longrightarrow>
        length (claude_calls s) < length (claude_calls (snd (reviewLoop env r i prompt s)))
      \<and> Err (resultAt (claude r) (claude_calls (snd (reviewLoop env r i prompt s)))
               (length (claude_calls (snd (reviewLoop env r i prompt s))) - 1)) = None
      \<and> Signal (resultAt (claude r) (claude_calls (snd (reviewLoop env r i prompt s)))
               (length (claude_calls (snd (reviewLoop env r i prompt s))) - 1))
           = SignalReviewDone)
   \<and> (\<forall>k. length (claude_calls s) \<le> k
         \<and> k < length (claude_calls (snd (reviewLoop env r i prompt s)))
         \<and> Err (resultAt (claude r) (claude_calls (snd (reviewLoop env r i prompt s))) k) = None
         \<and> Signal (resultAt (claude r) (claude_calls (snd (reviewLoop env r i prompt s))) k)
              = SignalFailed \<longrightarrow>
        Suc k = length (claude_calls (snd (reviewLoop env r i prompt s)))
      \<and> fst (reviewLoop env r i prompt s)
          = Some (ErrorsNew ''review failed (FAILED signal received)''))"
  (is "?D env r i prompt s \<and> ?E env r i prompt s \<and> ?F env r i prompt s")
proof (induction env r i prompt s rule: reviewLoop.induct)
  case (1 env r i prompt s)
  let ?n = "length (claude_calls s)"
  let ?res = "claude r (claude_calls s) prompt"
  show ?case
  proof (cases "i \<le> maxReviewIterations")
    case False
    then show ?thesis by (auto simp: reviewLoop_stop)
  next
    case le: True
    show ?thesis
    proof (cases "ctxDone env (length (claude_calls s))")
      case True
      then show ?thesis using le by (auto simp: reviewIteration_done reviewLoop_Return)
    next
      case False
      obtain f s1 where it: "reviewIteration env r i prompt s = (f, s1)"
        by (cases "reviewIteration env r i prompt s")
      have c1: "claude_calls s1 = claude_calls s @ [prompt]"
        using reviewIteration_live(1) [OF False, of r i prompt] it by simp
      have verdict: "f = (case Err ?res of
              Some e \<Rightarrow> Return (Some (Wrapf ''claude execution'' e))
            | None \<Rightarrow>
                if Signal ?res = SignalFailed
                then Return (Some (ErrorsNew ''review failed (FAILED signal received)''))
                else if Signal ?res = SignalReviewDone
                then Return None
                else Next (buildContinuePrompt (Output ?res)))"
        using reviewIteration_live(2) [OF False, of r i prompt] it by simp
      show ?thesis
      proof (cases f)
        case (Return e)
        have eq: "reviewLoop env r i prompt s = (e, s1)"
          using le it Return by (simp add: reviewLoop_Return)
        have r0: "resultAt (claude r) (claude_calls s @ [prompt]) ?n = ?res"
          by (simp add: resultAt_def)
        have k: "\<And>k. ?n \<le> k \<Longrightarrow> k < Suc ?n \<Longrightarrow> k = ?n" by simp
        show ?thesis
          unfolding eq using verdict Return c1 r0
          by (auto dest!: k split: option.splits if_splits)
      next
        case (Next p)
        let ?c = "claude_calls (snd (reviewLoop env r (i + 1) p s1))"
        have eq: "reviewLoop env r i prompt s = reviewLoop env r (i + 1) p s1"
          using le it Next by (simp add: reviewLoop_Next)
        have ih: "?D env r (i + 1) p s1" "?E env r (i + 1) p s1" "?F env r (i + 1) p s1"
          using "1.IH" [OF le it [symmetric] Next] by blast+
        have outer: "take ?n ?c = claude_calls s" "?n < length ?c \<longrightarrow> ?c ! ?n = prompt"
          using reviewLoop_calls [of s env r i prompt] unfolding eq by blast+
        have inner: "Suc ?n \<le> length ?c" "Suc ?n < length ?c \<longrightarrow> ?c ! Suc ?n = p"
          using reviewLoop_calls [of s1 env r "i + 1" p] c1 by simp_all
        have r0: "resultAt (claude r) ?c ?n = ?res"
          using outer inner(1) by (simp add: resultAt_def)
        have res: "Err ?res = None" "Signal ?res \<noteq> SignalFailed" "Signal ?res \<noteq> SignalReviewDone"
          "p = buildContinuePrompt (Output ?res)"
          using verdict Next by (auto split: option.splits if_splits)
        have D: "?D env r i prompt s"
          unfolding eq
        proof (intro allI impI)
          fix k assume k: "?n \<le> k \<and> Suc k < length ?c"
          show "Err (resultAt (claude r) ?c k) = None
              \<and> Signal (resultAt (claude r) ?c k) \<noteq> SignalFailed
              \<and> Signal (resultAt (claude r) ?c k) \<noteq> SignalReviewDone
              \<and> ?c ! Suc k = buildContinuePrompt (Output (resultAt (claude r) ?c k))"
          proof (cases "k = ?n")
            case True
            then show ?thesis using r0 res inner(2) k by simp
          next
            case False
            then have "length (claude_calls s1) \<le> k" using k c1 by simp
            then show ?thesis using ih(1) k by blast
          qed
        qed
        have E: "?E env r i prompt s"
          unfolding eq using ih(2) c1 by auto
        have F: "?F env r i prompt s"
          unfolding eq
        proof (intro allI impI)
          fix k assume k: "?n \<le> k \<and> k < length ?c
             \<and> Err (resultAt (claude r) ?c k) = None
             \<and> Signal (resultAt (claude r) ?c k) = SignalFailed"
          then have "k \<noteq> ?n" using r0 res by auto
          then have "length (claude_calls s1) \<le> k" using k c1 by simp
          then show "Suc k = length ?c
             \<and> fst (reviewLoop env r (i + 1) p s1)
                  = Some (ErrorsNew ''review failed (FAILED signal received)'')"
            using ih(3) k by blast
        qed
        show ?thesis using D E F by blast
      qed
    qed
  qed
qed

section \<open>The text of the continue prompt, and a review that never ends\<close>

lemma sublist_separator:
  assumes "c \<notin> set xs" and "xs \<noteq> []"
  shows "sublist xs (a @ c # b) \<longleftrightarrow> sublist xs a \<or> sublist xs b"
proof
  assume "sublist xs (a @ c # b)"
  then consider "sublist xs a" | "sublist xs (c # b)"
    | xs1 xs2 where "xs = xs1 @ xs2" "suffix xs1 a" "prefix xs2 (c # b)"
    unfolding sublist_append by blast
  then show "sublist xs a \<or> sublist xs b"
  proof cases
    case 1
    then show ?thesis by simp
  next
    case 2
    then have "prefix xs (c # b) \<or> sublist xs b" by (simp add: sublist_Cons_right)
    moreover have "\<not> prefix xs (c # b)"
      using assms by (cases xs) (auto simp: prefix_Cons)
    ultimately show ?thesis by simp
  next
    case 3
    show ?thesis
    proof (cases xs2)
      case Nil
      then have "suffix xs a" using 3 by simp
      then show ?thesis by auto
    next
      case (Cons y ys)
      then have "y = c" using 3(3) by (simp add: prefix_Cons)
      then have "c \<in> set xs" using 3(1) Cons by simp
      then show ?thesis using assms by simp
    qed
  qed
next
  assume "sublist xs a \<or> sublist xs b"
  then show "sublist xs (a @ c # b)"
  proof
    assume "sublist xs a"
    then show ?thesis by (metis sublist_append)
  next
    assume "sublist xs b"
    then have "sublist xs (c # b)" by (simp add: sublist_Cons_right)
    then show ?thesis by (metis sublist_append)
  qed
qed

lemma itoa_10: "itoa 10 = ''10''"
  by (simp add: itoa_def natToDec.simps)

lemma continueTail_mentions:
  "Contains continueTail SignalCompleted" "Contains continueTail SignalFailed"
  by (simp_all add: Contains_def continueTail_def SignalCompleted_def SignalFailed_def
        sublist_code prefix_code nl_def)

lemma continue_fixed_text_no_review_done:
  "\<not> Contains (butlast (butlast continueHead)) SignalReviewDone"
  "\<not> Contains (tl (tl continueTail)) SignalReviewDone"
  by (simp_all add: Contains_def continueHead_def continueTail_def SignalReviewDone_def
        sublist_code prefix_code nl_def)

lemma buildContinuePrompt_no_review_done:
  assumes "\<not> Contains out SignalReviewDone"
  shows "\<not> Contains (buildContinuePrompt out) SignalReviewDone"
proof -
  let ?x = SignalReviewDone
  define w where "w = (if length out > 500 then drop (length out - 500) out else out)"
  define H where "H = butlast (butlast continueHead)"
  define T where "T = tl (tl continueTail)"
  have x: "nl \<notin> set ?x" "?x \<noteq> []"
    by (simp_all add: SignalReviewDone_def nl_def)
  have shape: "buildContinuePrompt out = H @ nl # nl # w @ nl # nl # T"
    by (simp add: buildContinuePrompt_def Let_def w_def H_def T_def continueHead_def
          continueTail_def)
  have "sublist w out" by (simp add: w_def)
  then have w: "\<not> sublist ?x w"
    using assms sublist_order.order.trans [of ?x w out] by (auto simp: Contains_def)
  have H: "\<not> sublist ?x H" and T: "\<not> sublist ?x T"
    using continue_fixed_text_no_review_done by (simp_all add: Contains_def H_def T_def)
  have skip: "sublist ?x (nl # R) \<longleftrightarrow> sublist ?x R" for R
    using sublist_separator [OF x, of "[]" R] x by simp
  show ?thesis
    unfolding Contains_def shape
    using w H T by (simp add: sublist_separator [OF x] skip)
qed

lemma buildContinuePrompt_mentions:
  "Contains (buildContinuePrompt out) SignalCompleted"
  "Contains (buildContinuePrompt out) SignalFailed"
proof -
  have "suffix continueTail (buildContinuePrompt out)"
    by (auto simp: buildContinuePrompt_def Let_def suffix_def)
  then have "sublist continueTail (buildContinuePrompt out)"
    by (rule suffix_imp_sublist)
  then show "Contains (buildContinuePrompt out) SignalCompleted"
    "Contains (buildContinuePrompt out) SignalFailed"
    using continueTail_mentions sublist_order.order.trans unfolding Contains_def by blast+
qed

lemma reviewLoop_never_done:
  assumes never: "\<forall>h q. Err (claude r h q) = None \<and> Signal (claude r h q) \<noteq> SignalFailed
                     \<and> Signal (claude r h q) \<noteq> SignalReviewDone"
    and live: "\<forall>n. \<not> ctxDone env n"
  shows "k = nat (maxReviewIterations + 1 - i) \<Longrightarrow>
         fst (reviewLoop env r i prompt s) =
           Some (ErrorsNew ''max review iterations (10) reached'')
       \<and> length (claude_calls (snd (reviewLoop env r i prompt s))) = length (claude_calls s) + k"
proof (induction k arbitrary: i prompt s)
  case 0
  then have "\<not> i \<le> maxReviewIterations" by simp
  then show ?case by (simp add: reviewLoop_stop) (simp add: maxReviewIterations_def itoa_10)
next
  case (Suc k)
  then have le: "i \<le> maxReviewIterations" by simp
  let ?res = "claude r (claude_calls s) prompt"
  have nd: "\<not> ctxDone env (length (claude_calls s))" using live by simp
  obtain f s1 where it: "reviewIteration env r i prompt s = (f, s1)"
    by (cases "reviewIteration env r i prompt s")
  have calls: "claude_calls s1 = claude_calls s @ [prompt]"
    and f: "f = Next (buildContinuePrompt (Output ?res))"
    using reviewIteration_live [OF nd, of r i prompt] it never by simp_all
  have "k = nat (maxReviewIterations + 1 - (i + 1))" using Suc.prems by simp
  then have "fst (reviewLoop env r (i + 1) (buildContinuePrompt (Output ?res)) s1) =
           Some (ErrorsNew ''max review iterations (10) reached'')
       \<and> length (claude_calls (snd (reviewLoop env r (i + 1) (buildContinuePrompt (Output ?res)) s1)))
            = length (claude_calls s1) + k"
    using Suc.IH by blast
  then show ?case
    using le it f calls by (simp add: reviewLoop_Next)
qed

section \<open>Evaluating runs on the fixtures\<close>

lemmas run_simps =
  Run_def runFull_def runReviewOnly_def runCodexOnly_def runCodexPhase_def
  runTaskPhase_def runClaudeReview_def taskLoop.simps reviewLoop.simps
  taskIteration_def reviewIteration_def claudeRun_def codexRun_def Print_def SetPhase_def
  testRunner_def testEnv_def testState_def mockExecutor_def always_def
  IsTerminalSignal_def IsReviewDone_def Let_def
  ModeFull_def ModeReview_def ModeCodexOnly_def maxReviewIterations_def

lemmas signal_defs = SignalCompleted_def SignalFailed_def SignalReviewDone_def SignalCodexDone_def

section \<open>The FAILED signal\<close>

text \<open>
  C5, as amended. Whenever a result of the executor in the Task phase or in the Review
  phase has no error and the signal \<open>FAILED\<close>, it is the last invocation of the phase
  (the phase stops at once), and the phase fails with a fixed error: \<open>task execution
  failed (FAILED signal received)\<close> in the Task phase, \<open>review failed (FAILED signal
  received)\<close> in the Review phase. The error does not carry the result's output.
\<close>

theorem failed_signal_stops_phase:
  "(\<forall>k. length (claude_calls s) \<le> k
        \<and> k < length (claude_calls (snd (runTaskPhase env r s)))
        \<and> Err (resultAt (claude r) (claude_calls (snd (runTaskPhase env r s))) k) = None
        \<and> Signal (resultAt (claude r) (claude_calls (snd (runTaskPhase env r s))) k)
             = SignalFailed \<longrightarrow>
       Suc k = length (claude_calls (snd (runTaskPhase env r s)))
     \<and> fst (runTaskPhase env r s)
         = Some (ErrorsNew ''task execution failed (FAILED signal received)''))
   \<and> (\<forall>k. length (claude_calls s) \<le> k
        \<and> k < length (claude_calls (snd (runClaudeReview env r prompt s)))
        \<and> Err (resultAt (claude r) (claude_calls (snd (runClaudeReview env r prompt s))) k) = None
        \<and> Signal (resultAt (claude r) (claude_calls (snd (runClaudeReview env r prompt s))) k)
             = SignalFailed \<longrightarrow>
       Suc k = length (claude_calls (snd (runClaudeReview env r prompt s)))
     \<and> fst (runClaudeReview env r prompt s)
         = Some (ErrorsNew ''review failed (FAILED signal received)''))"
  unfolding runTaskPhase_def runClaudeReview_def
  using taskLoop_failed [of s env r 1 "[]"] reviewLoop_results [of s env r 1 prompt]
  by blast

text \<open>
  The claim as first stated also has the error include the agent's own explanation, the
  output of the failed result. On the input of \<open>TestRunner_TaskPhase_FailedSignal\<close>
  the run fails with the text \<open>task phase: task execution failed (FAILED signal
  received)\<close>, in which the output \<open>error occurred\<close> does not occur.
\<close>

theorem failed_signal_error_counterexample:
  "fst (Run testEnv
          (testRunner ModeFull 10
             (mockExecutor [\<lparr>Output = ''error occurred'', Signal = SignalFailed, Err = None\<rparr>])
             (mockExecutor []))
          testState)
     = Some (Wrapf ''task phase'' (ErrorsNew ''task execution failed (FAILED signal received)''))
   \<and> Error (Wrapf ''task phase'' (ErrorsNew ''task execution failed (FAILED signal received)''))
     = ''task phase: task execution failed (FAILED signal received)''
   \<and> \<not> Contains ''task phase: task execution failed (FAILED signal received)''
          ''error occurred''"
  by (simp add: run_simps signal_defs buildTaskPrompt_def Contains_def sublist_code prefix_code)

theorem failed_signal_stops_phase_witness:
  "length (claude_calls (snd (runTaskPhase testEnv
          (testRunner ModeFull 10
             (mockExecutor [\<lparr>Output = ''error occurred'', Signal = SignalFailed, Err = None\<rparr>])
             (mockExecutor []))
          testState))) = 1
   \<and> fst (runTaskPhase testEnv
          (testRunner ModeFull 10
             (mockExecutor [\<lparr>Output = ''error occurred'', Signal = SignalFailed, Err = None\<rparr>])
             (mockExecutor []))
          testState)
       = Some (ErrorsNew ''task execution failed (FAILED signal received)'')
   \<and> length (claude_calls (snd (runClaudeReview testEnv
          (testRunner ModeReview 10
             (mockExecutor [\<lparr>Output = ''error'', Signal = SignalFailed, Err = None\<rparr>])
             (mockExecutor []))
          buildFirstReviewPrompt testState))) = 1
   \<and> fst (runClaudeReview testEnv
          (testRunner ModeReview 10
             (mockExecutor [\<lparr>Output = ''error'', Signal = SignalFailed, Err = None\<rparr>])
             (mockExecutor []))
          buildFirstReviewPrompt testState)
       = Some (ErrorsNew ''review failed (FAILED signal received)'')"
proof -
  let ?rt = "testRunner ModeFull 10
             (mockExecutor [\<lparr>Output = ''error occurred'', Signal = SignalFailed, Err = None\<rparr>])
             (mockExecutor [])"
  let ?rr = "testRunner ModeReview 10
             (mockExecutor [\<lparr>Output = ''error'', Signal = SignalFailed, Err = None\<rparr>])
             (mockExecutor [])"
  have ct: "claude_calls (snd (runTaskPhase testEnv ?rt testState))
              = [projr (buildTaskPrompt (readFile testEnv) ''plan.md'' 1)]"
    by (simp add: run_simps signal_defs buildTaskPrompt_def)
  have cr: "claude_calls (snd (runClaudeReview testEnv ?rr buildFirstReviewPrompt testState))
              = [buildFirstReviewPrompt]"
    by (simp add: run_simps signal_defs)
  have pt: "length (claude_calls testState) \<le> 0
        \<and> 0 < length (claude_calls (snd (runTaskPhase testEnv ?rt testState)))
        \<and> Err (resultAt (claude ?rt) (claude_calls (snd (runTaskPhase testEnv ?rt testState))) 0) = None
        \<and> Signal (resultAt (claude ?rt) (claude_calls (snd (runTaskPhase testEnv ?rt testState))) 0)
             = SignalFailed"
    unfolding ct by (simp add: resultAt_def testRunner_def mockExecutor_def testState_def)
  have pr: "length (claude_calls testState) \<le> 0
        \<and> 0 < length (claude_calls (snd (runClaudeReview testEnv ?rr buildFirstReviewPrompt testState)))
        \<and> Err (resultAt (claude ?rr) (claude_calls (snd (runClaudeReview testEnv ?rr buildFirstReviewPrompt testState))) 0) = None
        \<and> Signal (resultAt (claude ?rr) (claude_calls (snd (runClaudeReview testEnv ?rr buildFirstReviewPrompt testState))) 0)
             = SignalFailed"
    unfolding cr by (simp add: resultAt_def testRunner_def mockExecutor_def testState_def)
  from failed_signal_stops_phase [of testState testEnv ?rt buildFirstReviewPrompt] pt
  have "Suc 0 = length (claude_calls (snd (runTaskPhase testEnv ?rt testState)))
     \<and> fst (runTaskPhase testEnv ?rt testState)
         = Some (ErrorsNew ''task execution failed (FAILED signal received)'')"
    by blast
  moreover
  from failed_signal_stops_phase [of testState testEnv ?rr buildFirstReviewPrompt] pr
  have "Suc 0 = length (claude_calls (snd (runClaudeReview testEnv ?rr buildFirstReviewPrompt testState)))
     \<and> fst (runClaudeReview testEnv ?rr buildFirstReviewPrompt testState)
         = Some (ErrorsNew ''review failed (FAILED signal received)'')"
    by blast
  ultimately show ?thesis by simp
qed

section \<open>The Review phase loop and its cap\<close>





section \<open>What a continuing review is told\<close>

text \<open>
  C9. In a Review phase every invocation after the first follows a result with no
  error and neither \<open>REVIEW_DONE\<close> nor \<open>FAILED\<close>, and its prompt is
  \<open>buildContinuePrompt\<close> of that result's output. That prompt tells the agent to output
  \<open>COMPLETED\<close> or \<open>FAILED\<close>; its fixed text never mentions \<open>REVIEW_DONE\<close>, so the
  prompt contains \<open>REVIEW_DONE\<close> only where the echoed previous output does. Yet
  \<open>COMPLETED\<close> does not end a review: the phase succeeds only on \<open>REVIEW_DONE\<close>, and
  an agent that answers \<open>COMPLETED\<close> every time runs into the review cap.
\<close>

theorem review_continue_prompt:
  "(\<forall>k. length (claude_calls s) \<le> k
        \<and> Suc k < length (claude_calls (snd (runClaudeReview env r prompt s))) \<longrightarrow>
       Err (resultAt (claude r) (claude_calls (snd (runClaudeReview env r prompt s))) k) = None
     \<and> Signal (resultAt (claude r) (claude_calls (snd (runClaudeReview env r prompt s))) k)
          \<noteq> SignalFailed
     \<and> Signal (resultAt (claude r) (claude_calls (snd (runClaudeReview env r prompt s))) k)
          \<noteq> SignalReviewDone
     \<and> claude_calls (snd (runClaudeReview env r prompt s)) ! Suc k =
         buildContinuePrompt
           (Output (resultAt (claude r) (claude_calls (snd (runClaudeReview env r prompt s))) k)))
   \<and> Contains (buildContinuePrompt out) SignalCompleted
   \<and> Contains (buildContinuePrompt out) SignalFailed
   \<and> \<not> Contains continueHead SignalReviewDone
   \<and> \<not> Contains continueTail SignalReviewDone
   \<and> (\<not> Contains out SignalReviewDone \<longrightarrow>
        \<not> Contains (buildContinuePrompt out) SignalReviewDone)
   \<and> \<not> IsReviewDone SignalCompleted
   \<and> (fst (runClaudeReview env r prompt s) = None \<longrightarrow>
        length (claude_calls s) < length (claude_calls (snd (runClaudeReview env r prompt s)))
      \<and> Signal (resultAt (claude r) (claude_calls (snd (runClaudeReview env r prompt s)))
             (length (claude_calls (snd (runClaudeReview env r prompt s))) - 1))
         = SignalReviewDone)
   \<and> ((\<forall>n. \<not> ctxDone env n)
        \<and> (\<forall>h q. Err (claude r h q) = None \<and> Signal (claude r h q) = SignalCompleted) \<longrightarrow>
       length (claude_calls (snd (runClaudeReview env r prompt s)))
         = length (claude_calls s) + 10
     \<and> fst (runClaudeReview env r prompt s)
         = Some (ErrorsNew ''max review iterations (10) reached''))"
proof -
  have cap: "nat (maxReviewIterations + 1 - 1) = 10"
    by (simp add: maxReviewIterations_def)
  have completed: "(\<forall>n. \<not> ctxDone env n)
        \<and> (\<forall>h q. Err (claude r h q) = None \<and> Signal (claude r h q) = SignalCompleted) \<longrightarrow>
       length (claude_calls (snd (reviewLoop env r 1 prompt s)))
         = length (claude_calls s) + 10
     \<and> fst (reviewLoop env r 1 prompt s)
         = Some (ErrorsNew ''max review iterations (10) reached'')"
    using reviewLoop_never_done [of r env 10 1 prompt s] cap
    by (simp add: signals_distinct)
  have fixed: "\<not> Contains continueHead SignalReviewDone"
    "\<not> Contains continueTail SignalReviewDone"
    by (simp_all add: Contains_def continueHead_def continueTail_def SignalReviewDone_def
          sublist_code prefix_code nl_def)
  have nd: "\<not> IsReviewDone SignalCompleted"
    by (simp add: IsReviewDone_def signals_distinct)
  show ?thesis
    unfolding runClaudeReview_def
    using reviewLoop_results [of s env r 1 prompt] completed fixed nd
      buildContinuePrompt_mentions [of out] buildContinuePrompt_no_review_done [of out]
    by blast
qed

theorem review_continue_prompt_witness:
  "length (claude_calls (snd (runClaudeReview testEnv
      (testRunner ModeReview 10
         (mockExecutor [\<lparr>Output = ''all fixed'', Signal = SignalCompleted, Err = None\<rparr>,
                        \<lparr>Output = ''review done'', Signal = SignalReviewDone, Err = None\<rparr>])
         (mockExecutor []))
      buildFirstReviewPrompt testState))) = 2
   \<and> claude_calls (snd (runClaudeReview testEnv
      (testRunner ModeReview 10
         (mockExecutor [\<lparr>Output = ''all fixed'', Signal = SignalCompleted, Err = None\<rparr>,
                        \<lparr>Output = ''review done'', Signal = SignalReviewDone, Err = None\<rparr>])
         (mockExecutor []))
      buildFirstReviewPrompt testState)) ! 1
     = buildContinuePrompt ''all fixed''
   \<and> \<not> Contains ''all fixed'' SignalReviewDone
   \<and> \<not> Contains (buildContinuePrompt ''all fixed'') SignalReviewDone"
proof -
  let ?r = "testRunner ModeReview 10
         (mockExecutor [\<lparr>Output = ''all fixed'', Signal = SignalCompleted, Err = None\<rparr>,
                        \<lparr>Output = ''review done'', Signal = SignalReviewDone, Err = None\<rparr>])
         (mockExecutor [])"
  let ?c = "claude_calls (snd (runClaudeReview testEnv ?r buildFirstReviewPrompt testState))"
  have len: "length ?c = 2" and first: "?c ! 0 = buildFirstReviewPrompt"
    by (simp_all add: run_simps signal_defs)
  have echo: "\<not> Contains ''all fixed'' SignalReviewDone"
    by (simp add: Contains_def SignalReviewDone_def sublist_code prefix_code)
  note inst = review_continue_prompt [of testState testEnv ?r buildFirstReviewPrompt "''all fixed''"]
  have h: "length (claude_calls testState) \<le> 0 \<and> Suc 0 < length ?c"
    using len by (simp add: testState_def)
  have "?c ! Suc 0 = buildContinuePrompt (Output (resultAt (claude ?r) ?c 0))"
    using inst [THEN conjunct1, rule_format, of 0, OF h] by (elim conjE)
  moreover have "resultAt (claude ?r) ?c 0
      = \<lparr>Output = ''all fixed'', Signal = SignalCompleted, Err = None\<rparr>"
    unfolding resultAt_def first by (simp add: testRunner_def mockExecutor_def)
  ultimately have second: "?c ! 1 = buildContinuePrompt ''all fixed''" by simp
  have "\<not> Contains (buildContinuePrompt ''all fixed'') SignalReviewDone"
    using inst [THEN conjunct2, THEN conjunct2, THEN conjunct2, THEN conjunct2, THEN conjunct2,
                THEN conjunct1] echo by (rule mp)
  then show ?thesis using len second echo by simp
qed

section \<open>From the Analysis to the second review\<close>

lemma logger_keeps_calls [simp]:
  "claude_calls (Print format args s) = claude_calls s"
  "codex_calls (Print format args s) = codex_calls s"
  "claude_calls (SetPhase phase s) = claude_calls s"
  "codex_calls (SetPhase phase s) = codex_calls s"
  by (simp_all add: Print_def SetPhase_def)

lemma runCodexPhase_result:
  "claude_calls (snd (runCodexPhase r s)) = claude_calls s"
  "codex_calls (snd (runCodexPhase r s)) = codex_calls s @ [buildCodexPrompt]"
  "fst (runCodexPhase r s) =
     (case Err (codex r (codex_calls s) buildCodexPrompt) of
        Some e \<Rightarrow> ([], Some (Wrapf ''codex execution'' e))
      | None \<Rightarrow> (Output (codex r (codex_calls s) buildCodexPrompt), None))"
  by (simp_all add: runCodexPhase_def codexRun_def Print_def split: option.splits)

lemma sublist_skip: "sublist xs zs \<Longrightarrow> sublist xs (ys @ zs)"
  by (simp add: sublist_append)

lemma buildSecondReviewPrompt_findings:
  "Contains (buildSecondReviewPrompt findings) findings"
  unfolding Contains_def buildSecondReviewPrompt_def
  by (rule sublist_skip, rule sublist_skip, rule sublist_skip, rule sublist_skip)
     (rule sublist_append_rightI)

lemma reviewLoop_first_call:
  assumes "\<not> ctxDone env (length (claude_calls s))" and "i \<le> maxReviewIterations"
  shows "length (claude_calls s) < length (claude_calls (snd (reviewLoop env r i prompt s)))"
proof -
  obtain f s1 where it: "reviewIteration env r i prompt s = (f, s1)"
    by (cases "reviewIteration env r i prompt s")
  have c1: "claude_calls s1 = claude_calls s @ [prompt]"
    using reviewIteration_live(1) [OF assms(1), of r i prompt] it by simp
  show ?thesis
  proof (cases f)
    case (Return e)
    then show ?thesis using assms(2) it c1 by (simp add: reviewLoop_Return)
  next
    case (Next p)
    then have "reviewLoop env r i prompt s = reviewLoop env r (i + 1) p s1"
      using assms(2) it by (simp add: reviewLoop_Next)
    then show ?thesis using reviewLoop_calls [of s1 env r "i + 1" p] c1 by simp
  qed
qed

lemma reviewLoop_done_at_once:
  assumes "\<not> ctxDone env (length (claude_calls s))" and "i \<le> maxReviewIterations"
    and "Err (claude r (claude_calls s) prompt) = None"
    and "Signal (claude r (claude_calls s) prompt) = SignalReviewDone"
  shows "fst (reviewLoop env r i prompt s) = None"
    and "claude_calls (snd (reviewLoop env r i prompt s)) = claude_calls s @ [prompt]"
proof -
  obtain f s1 where it: "reviewIteration env r i prompt s = (f, s1)"
    by (cases "reviewIteration env r i prompt s")
  have "claude_calls s1 = claude_calls s @ [prompt]" and "f = Return None"
    using reviewIteration_live [OF assms(1), of r i prompt] it assms(3,4)
    by (simp_all add: signals_distinct)
  then show "fst (reviewLoop env r i prompt s) = None"
    and "claude_calls (snd (reviewLoop env r i prompt s)) = claude_calls s @ [prompt]"
    using assms(2) it by (simp_all add: reviewLoop_Return)
qed

lemma followUpReview_findings:
  assumes "Output res \<noteq> []"
    and "claude_calls (snd out)
           = claude_calls (snd (runClaudeReview env r (buildSecondReviewPrompt (Output res)) s))"
    and "fst out = None \<longleftrightarrow>
           fst (runClaudeReview env r (buildSecondReviewPrompt (Output res)) s) = None"
  shows "followUpReview env r (claude_calls s) res out"
proof -
  let ?p = "buildSecondReviewPrompt (Output res)"
  let ?c = "claude_calls (snd (reviewLoop env r 1 ?p s))"
  have one: "(1::int) \<le> maxReviewIterations" "nat (maxReviewIterations + 1 - 1) = 10"
    by (simp_all add: maxReviewIterations_def)
  have a: "take (length (claude_calls s)) ?c = claude_calls s"
    "length ?c \<le> length (claude_calls s) + 10"
    "length (claude_calls s) < length ?c \<longrightarrow> ?c ! length (claude_calls s) = ?p"
    using reviewLoop_calls [of s env r 1 ?p] one(2) by simp_all
  have b: "\<not> ctxDone env (length (claude_calls s)) \<longrightarrow> length (claude_calls s) < length ?c"
    using reviewLoop_first_call [OF _ one(1)] by blast
  have c: "\<forall>k. length (claude_calls s) \<le> k \<and> Suc k < length ?c \<longrightarrow>
             ?c ! Suc k = buildContinuePrompt (Output (resultAt (claude r) ?c k))"
    using reviewLoop_results [of s env r 1 ?p] by blast
  have d: "\<not> ctxDone env (length (claude_calls s))
            \<and> Err (claude r (claude_calls s) ?p) = None
            \<and> Signal (claude r (claude_calls s) ?p) = SignalReviewDone \<longrightarrow>
            length ?c = length (claude_calls s) + 1 \<and> fst (reviewLoop env r 1 ?p s) = None"
    using reviewLoop_done_at_once [OF _ one(1), of env s r ?p] by simp
  show ?thesis
    unfolding followUpReview_def Let_def assms(2) assms(3) runClaudeReview_def
    using assms(1) a b c d buildSecondReviewPrompt_findings [of "Output res"]
    by simp
qed

lemma followUpReview_none:
  assumes "Output res = []" and "claude_calls (snd out) = before" and "fst out = None"
  shows "followUpReview env r before res out"
  using assms by (simp add: followUpReview_def)

lemma follow_up_tail:
  assumes ok: "Err (codex r (codex_calls sc) buildCodexPrompt) = None"
    and before: "claude_calls sc = before"
  shows "followUpReview env r before (codex r (codex_calls sc) buildCodexPrompt)
      (case runCodexPhase r sc of
         ((findings, Some err), s) \<Rightarrow> (Some (Wrapf lcodex err), s)
       | ((findings, None), s) \<Rightarrow>
          if findings \<noteq> [] then
            let s = SetPhase PhaseReview s; s = Print mstart [] s in
            (case runClaudeReview env r (buildSecondReviewPrompt findings) s of
               (Some err, s) \<Rightarrow> (Some (Wrapf lreview err), s)
             | (None, s) \<Rightarrow> (None, Print mdone [] s))
          else (None, Print mdone [] s))"
proof -
  let ?res = "codex r (codex_calls sc) buildCodexPrompt"
  obtain f e s1 where ph: "runCodexPhase r sc = ((f, e), s1)"
    by (cases "runCodexPhase r sc") auto
  have s1: "claude_calls s1 = before" and f: "f = Output ?res" and e: "e = None"
    using runCodexPhase_result(1,3) [of r sc] ph ok before by simp_all
  show ?thesis
  proof (cases "Output ?res = []")
    case True
    then show ?thesis
      unfolding ph using f e s1
      by (simp add: followUpReview_none)
  next
    case False
    let ?s2 = "Print mstart [] (SetPhase PhaseReview s1)"
    let ?p = "buildSecondReviewPrompt (Output ?res)"
    have s2: "claude_calls ?s2 = before"
      using s1 by simp
    obtain e2 s3 where rv: "runClaudeReview env r ?p ?s2 = (e2, s3)"
      by (cases "runClaudeReview env r ?p ?s2")
    have "followUpReview env r (claude_calls ?s2) ?res
            (case e2 of Some err \<Rightarrow> (Some (Wrapf lreview err), s3)
                      | None \<Rightarrow> (None, Print mdone [] s3))"
      by (rule followUpReview_findings [OF False])
         (simp_all add: rv split: option.splits)
    then show ?thesis
      unfolding ph s2 using f e False rv
      by (simp add: Let_def split: option.splits)
  qed
qed

text \<open>
  C2, as amended. In each of the three pipelines, once the Analysis is reached and its
  result has no error: with an empty output the pipeline succeeds there and claude is
  not invoked again; with a non-empty output one Review phase follows. Unless the
  context is done, its first invocation is made and receives the second-review prompt,
  which contains the findings as they are; the phase makes at most 10 invocations, the
  later ones with continue prompts, and exactly one when the first is answered with
  \<open>REVIEW_DONE\<close>. For the review-only and the full pipeline the Analysis is reached
  when the phases before it have succeeded; \<open>s1\<close> and \<open>s2\<close> are the states they leave.
\<close>

theorem analysis_follow_up:
  "(Err (codex r (codex_calls s) buildCodexPrompt) = None \<longrightarrow>
      followUpReview env r (claude_calls s) (codex r (codex_calls s) buildCodexPrompt)
        (runCodexOnly env r s))
   \<and> (\<forall>s1. runClaudeReview env r buildFirstReviewPrompt
              (Print ''starting review phase'' [] (SetPhase PhaseReview s)) = (None, s1)
          \<and> Err (codex r (codex_calls s1) buildCodexPrompt) = None \<longrightarrow>
        followUpReview env r (claude_calls s1) (codex r (codex_calls s1) buildCodexPrompt)
          (runReviewOnly env r s))
   \<and> (\<forall>s1 s2. PlanFile (cfg r) \<noteq> []
          \<and> runTaskPhase env r
              (Print ''starting task execution phase'' [] (SetPhase PhaseTask s)) = (None, s1)
          \<and> runClaudeReview env r buildFirstReviewPrompt
              (Print ''starting first review phase'' [] (SetPhase PhaseReview s1)) = (None, s2)
          \<and> Err (codex r (codex_calls s2) buildCodexPrompt) = None \<longrightarrow>
        followUpReview env r (claude_calls s2) (codex r (codex_calls s2) buildCodexPrompt)
          (runFull env r s))"
proof (intro conjI allI impI)
  let ?start = "\<lambda>s. Print ''starting codex analysis phase'' [] (SetPhase PhaseCodex s)"
  have st: "\<And>s. codex_calls (?start s) = codex_calls s"
    "\<And>s. claude_calls (?start s) = claude_calls s"
    by (simp_all add: Print_def SetPhase_def)
  {
    assume "Err (codex r (codex_calls s) buildCodexPrompt) = None"
    then show "followUpReview env r (claude_calls s) (codex r (codex_calls s) buildCodexPrompt)
        (runCodexOnly env r s)"
      using follow_up_tail [where r=r and sc="?start s" and before="claude_calls s" and env=env and lcodex="''codex phase''" and mstart="''starting review phase (addressing codex findings)''" and lreview="''review''" and mdone="''codex phases completed successfully''"]
      by (simp add: runCodexOnly_def Let_def st)
  next
    fix s1
    assume "runClaudeReview env r buildFirstReviewPrompt
              (Print ''starting review phase'' [] (SetPhase PhaseReview s)) = (None, s1)
          \<and> Err (codex r (codex_calls s1) buildCodexPrompt) = None"
    then show "followUpReview env r (claude_calls s1) (codex r (codex_calls s1) buildCodexPrompt)
          (runReviewOnly env r s)"
      using follow_up_tail [where r=r and sc="?start s1" and before="claude_calls s1" and env=env and lcodex="''codex phase''" and mstart="''starting second review phase (addressing codex findings)''" and lreview="''second review''" and mdone="''review phases completed successfully''"]
      by (simp add: runReviewOnly_def Let_def st)
  next
    fix s1 s2
    assume "PlanFile (cfg r) \<noteq> []
          \<and> runTaskPhase env r
              (Print ''starting task execution phase'' [] (SetPhase PhaseTask s)) = (None, s1)
          \<and> runClaudeReview env r buildFirstReviewPrompt
              (Print ''starting first review phase'' [] (SetPhase PhaseReview s1)) = (None, s2)
          \<and> Err (codex r (codex_calls s2) buildCodexPrompt) = None"
    then show "followUpReview env r (claude_calls s2) (codex r (codex_calls s2) buildCodexPrompt)
          (runFull env r s)"
      using follow_up_tail [where r=r and sc="?start s2" and before="claude_calls s2" and env=env and lcodex="''codex phase''" and mstart="''starting second review phase (addressing codex findings)''" and lreview="''second review''" and mdone="''all phases completed successfully''"]
      by (simp add: runFull_def Let_def st)
  }
qed

text \<open>
  The claim as first stated has exactly one follow-up invocation, whose prompt contains
  the findings. In the codex-only pipeline, with findings \<open>found issue\<close> and a claude
  that answers first without a signal and then with \<open>REVIEW_DONE\<close>, the run succeeds
  after two follow-up invocations, and the prompt of the second is a continue prompt in
  which the findings do not occur.
\<close>

theorem follow_up_invocations_counterexample:
  "fst (Run testEnv
          (testRunner ModeCodexOnly 10
             (mockExecutor [\<lparr>Output = ''working...'', Signal = [], Err = None\<rparr>,
                            \<lparr>Output = ''review done'', Signal = SignalReviewDone, Err = None\<rparr>])
             (mockExecutor [\<lparr>Output = ''found issue'', Signal = [], Err = None\<rparr>]))
          testState) = None
   \<and> claude_calls (snd (Run testEnv
          (testRunner ModeCodexOnly 10
             (mockExecutor [\<lparr>Output = ''working...'', Signal = [], Err = None\<rparr>,
                            \<lparr>Output = ''review done'', Signal = SignalReviewDone, Err = None\<rparr>])
             (mockExecutor [\<lparr>Output = ''found issue'', Signal = [], Err = None\<rparr>]))
          testState))
      = [buildSecondReviewPrompt ''found issue'', buildContinuePrompt ''working...'']
   \<and> \<not> Contains (buildContinuePrompt ''working...'') ''found issue''"
  by (simp add: run_simps signal_defs)
     (simp add: buildContinuePrompt_def continueHead_def continueTail_def Contains_def
        sublist_code prefix_code nl_def)

theorem analysis_follow_up_witness:
  "fst (runCodexOnly testEnv
          (testRunner ModeCodexOnly 10
             (mockExecutor [\<lparr>Output = ''review done'', Signal = SignalReviewDone, Err = None\<rparr>])
             (mockExecutor [\<lparr>Output = ''found issue'', Signal = [], Err = None\<rparr>]))
          testState) = None
   \<and> claude_calls (snd (runCodexOnly testEnv
          (testRunner ModeCodexOnly 10
             (mockExecutor [\<lparr>Output = ''review done'', Signal = SignalReviewDone, Err = None\<rparr>])
             (mockExecutor [\<lparr>Output = ''found issue'', Signal = [], Err = None\<rparr>]))
          testState)) = [buildSecondReviewPrompt ''found issue'']
   \<and> fst (runCodexOnly testEnv
          (testRunner ModeCodexOnly 10 (mockExecutor [])
             (mockExecutor [\<lparr>Output = [], Signal = [], Err = None\<rparr>]))
          testState) = None
   \<and> claude_calls (snd (runCodexOnly testEnv
          (testRunner ModeCodexOnly 10 (mockExecutor [])
             (mockExecutor [\<lparr>Output = [], Signal = [], Err = None\<rparr>]))
          testState)) = []"
proof -
  let ?rf = "testRunner ModeCodexOnly 10
             (mockExecutor [\<lparr>Output = ''review done'', Signal = SignalReviewDone, Err = None\<rparr>])
             (mockExecutor [\<lparr>Output = ''found issue'', Signal = [], Err = None\<rparr>])"
  let ?rn = "testRunner ModeCodexOnly 10 (mockExecutor [])
             (mockExecutor [\<lparr>Output = [], Signal = [], Err = None\<rparr>])"
  have rf: "codex ?rf (codex_calls testState) buildCodexPrompt
              = \<lparr>Output = ''found issue'', Signal = [], Err = None\<rparr>"
    and rn: "codex ?rn (codex_calls testState) buildCodexPrompt
              = \<lparr>Output = [], Signal = [], Err = None\<rparr>"
    and cl: "claude ?rf [] (buildSecondReviewPrompt ''found issue'')
              = \<lparr>Output = ''review done'', Signal = SignalReviewDone, Err = None\<rparr>"
    and st: "claude_calls testState = []" "\<not> ctxDone testEnv 0"
    by (simp_all add: testRunner_def mockExecutor_def testState_def testEnv_def)
  have "followUpReview testEnv ?rf (claude_calls testState)
          (codex ?rf (codex_calls testState) buildCodexPrompt)
          (runCodexOnly testEnv ?rf testState)"
    using analysis_follow_up [of ?rf testState testEnv, THEN conjunct1] rf by simp
  then have a: "fst (runCodexOnly testEnv ?rf testState) = None"
    "length (claude_calls (snd (runCodexOnly testEnv ?rf testState))) = 1"
    "claude_calls (snd (runCodexOnly testEnv ?rf testState)) ! 0
       = buildSecondReviewPrompt ''found issue''"
    unfolding followUpReview_def Let_def rf st using cl st(2) by simp_all
  have "followUpReview testEnv ?rn (claude_calls testState)
          (codex ?rn (codex_calls testState) buildCodexPrompt)
          (runCodexOnly testEnv ?rn testState)"
    using analysis_follow_up [of ?rn testState testEnv, THEN conjunct1] rn by simp
  then have b: "fst (runCodexOnly testEnv ?rn testState) = None"
    "claude_calls (snd (runCodexOnly testEnv ?rn testState)) = []"
    unfolding followUpReview_def Let_def rn st by simp_all
  have "claude_calls (snd (runCodexOnly testEnv ?rf testState))
          = [buildSecondReviewPrompt ''found issue'']"
    using a(2,3) by (cases "claude_calls (snd (runCodexOnly testEnv ?rf testState))") simp_all
  then show ?thesis using a(1) b by simp
qed

section \<open>The Analysis phase\<close>

text \<open>
  C10. The Analysis phase does not look at the signal of the codex result. When the
  result has no error the phase succeeds and returns the output as the findings (the
  empty output is "no findings"), whatever the signal, \<open>FAILED\<close> and \<open>CODEX_DONE\<close>
  included: replacing the signal of every codex result by any \<open>sig\<close> leaves the phase
  unchanged. Only a result with an error makes the phase fail, with that error wrapped.
\<close>

theorem codex_phase_ignores_signal:
  "(Err (codex r (codex_calls s) buildCodexPrompt) = None \<longrightarrow>
      fst (runCodexPhase r s) = (Output (codex r (codex_calls s) buildCodexPrompt), None))
   \<and> (\<forall>e. Err (codex r (codex_calls s) buildCodexPrompt) = Some e \<longrightarrow>
        fst (runCodexPhase r s) = ([], Some (Wrapf ''codex execution'' e)))
   \<and> codex_calls (snd (runCodexPhase r s)) = codex_calls s @ [buildCodexPrompt]
   \<and> runCodexPhase (r\<lparr>codex := \<lambda>calls prompt. (codex r calls prompt)\<lparr>Signal := sig\<rparr>\<rparr>) s
       = runCodexPhase r s"
  by (simp add: runCodexPhase_def codexRun_def split: option.splits)

theorem codex_phase_ignores_signal_witness:
  "fst (runCodexPhase
          (testRunner ModeCodexOnly 10 (mockExecutor [])
             (mockExecutor [\<lparr>Output = ''found issue'', Signal = SignalFailed, Err = None\<rparr>]))
          testState) = (''found issue'', None)
   \<and> fst (runCodexPhase
          (testRunner ModeCodexOnly 10 (mockExecutor [])
             (mockExecutor [\<lparr>Output = [], Signal = [], Err = Some (ErrorsNew ''codex error'')\<rparr>]))
          testState) = ([], Some (Wrapf ''codex execution'' (ErrorsNew ''codex error'')))"
  using codex_phase_ignores_signal
          [of "testRunner ModeCodexOnly 10 (mockExecutor [])
                 (mockExecutor [\<lparr>Output = ''found issue'', Signal = SignalFailed, Err = None\<rparr>])"
              testState]
        codex_phase_ignores_signal
          [of "testRunner ModeCodexOnly 10 (mockExecutor [])
             (mockExecutor [\<lparr>Output = [], Signal = [], Err = Some (ErrorsNew ''codex error'')\<rparr>])"
              testState]
  by (simp add: testRunner_def mockExecutor_def testState_def)

section \<open>The plan file\<close>

lemma reviewIteration_ignores_plan:
  "reviewIteration (env\<lparr>readFile := f\<rparr>) (r\<lparr>cfg := (cfg r)\<lparr>PlanFile := p\<rparr>\<rparr>) i prompt s
     = reviewIteration env r i prompt s"
  by (simp add: reviewIteration_def claudeRun_def)

lemma reviewLoop_ignores_plan:
  "reviewLoop (env\<lparr>readFile := f\<rparr>) (r\<lparr>cfg := (cfg r)\<lparr>PlanFile := p\<rparr>\<rparr>) i prompt s
     = reviewLoop env r i prompt s"
proof (induction env r i prompt s rule: reviewLoop.induct)
  case (1 env r i prompt s)
  show ?case
  proof (cases "i \<le> maxReviewIterations")
    case False
    then show ?thesis by (simp add: reviewLoop_stop)
  next
    case le: True
    obtain fl s1 where it: "reviewIteration env r i prompt s = (fl, s1)"
      by (cases "reviewIteration env r i prompt s")
    show ?thesis
    proof (cases fl)
      case (Return e)
      then show ?thesis
        using le it reviewLoop_Return reviewIteration_ignores_plan by simp
    next
      case (Next q)
      then show ?thesis
        using le it "1.IH" [OF le it [symmetric] Next]
          reviewLoop_Next [of i env r prompt s q s1]
          reviewLoop_Next [of i "env\<lparr>readFile := f\<rparr>" "r\<lparr>cfg := (cfg r)\<lparr>PlanFile := p\<rparr>\<rparr>"
             prompt s q s1]
        by (simp add: reviewIteration_ignores_plan)
    qed
  qed
qed

lemma reviewLoop_file_reads:
  "file_reads (snd (reviewLoop env r i prompt s)) = file_reads s"
proof (induction env r i prompt s rule: reviewLoop.induct)
  case (1 env r i prompt s)
  show ?case
  proof (cases "i \<le> maxReviewIterations")
    case False
    then show ?thesis by (simp add: reviewLoop_stop)
  next
    case le: True
    obtain fl s1 where it: "reviewIteration env r i prompt s = (fl, s1)"
      by (cases "reviewIteration env r i prompt s")
    have fr: "file_reads s1 = file_reads s"
      using it by (auto simp: reviewIteration_def claudeRun_def Print_def Let_def
                        split: if_splits option.splits)
    show ?thesis
    proof (cases fl)
      case (Return e)
      then show ?thesis using le it fr by (simp add: reviewLoop_Return)
    next
      case (Next q)
      then show ?thesis
        using le it fr "1.IH" [OF le it [symmetric] Next] by (simp add: reviewLoop_Next)
    qed
  qed
qed

lemma logger_keeps_reads [simp]:
  "file_reads (Print format args s) = file_reads s"
  "file_reads (SetPhase phase s) = file_reads s"
  by (simp_all add: Print_def SetPhase_def)

lemma runCodexPhase_file_reads [simp]:
  "file_reads (snd (runCodexPhase r s)) = file_reads s"
  by (simp add: runCodexPhase_def codexRun_def split: option.splits)

lemma runCodexPhase_ignores_plan [simp]:
  "runCodexPhase (r\<lparr>cfg := (cfg r)\<lparr>PlanFile := p\<rparr>\<rparr>) s = runCodexPhase r s"
  by (simp add: runCodexPhase_def codexRun_def)

lemma runClaudeReview_file_reads [simp]:
  "file_reads (snd (runClaudeReview env r prompt s)) = file_reads s"
  by (simp add: runClaudeReview_def reviewLoop_file_reads)

lemma runClaudeReview_ignores_plan [simp]:
  "runClaudeReview (env\<lparr>readFile := f\<rparr>) (r\<lparr>cfg := (cfg r)\<lparr>PlanFile := p\<rparr>\<rparr>) prompt s
     = runClaudeReview env r prompt s"
  by (simp add: runClaudeReview_def reviewLoop_ignores_plan)

lemma runCodexOnly_plan:
  "file_reads (snd (runCodexOnly env r s)) = file_reads s"
  "runCodexOnly (env\<lparr>readFile := f\<rparr>) (r\<lparr>cfg := (cfg r)\<lparr>PlanFile := p\<rparr>\<rparr>) s
     = runCodexOnly env r s"
proof -
  let ?sc = "Print ''starting codex analysis phase'' [] (SetPhase PhaseCodex s)"
  obtain fi e s1 where ph: "runCodexPhase r ?sc = ((fi, e), s1)"
    by (cases "runCodexPhase r ?sc") auto
  have s1: "file_reads s1 = file_reads s"
    using runCodexPhase_file_reads [of r ?sc] ph by simp
  let ?s2 = "Print ''starting review phase (addressing codex findings)'' []
               (SetPhase PhaseReview s1)"
  obtain e2 s3 where rv: "runClaudeReview env r (buildSecondReviewPrompt fi) ?s2 = (e2, s3)"
    by (cases "runClaudeReview env r (buildSecondReviewPrompt fi) ?s2")
  have s3: "file_reads s3 = file_reads s"
    using runClaudeReview_file_reads [of env r "buildSecondReviewPrompt fi" ?s2] rv s1 by simp
  show "file_reads (snd (runCodexOnly env r s)) = file_reads s"
    using ph rv s1 s3 by (simp add: runCodexOnly_def Let_def split: option.splits)
  show "runCodexOnly (env\<lparr>readFile := f\<rparr>) (r\<lparr>cfg := (cfg r)\<lparr>PlanFile := p\<rparr>\<rparr>) s
     = runCodexOnly env r s"
    by (simp add: runCodexOnly_def Let_def cong: prod.case_cong option.case_cong if_cong)
qed

lemma runReviewOnly_plan:
  "file_reads (snd (runReviewOnly env r s)) = file_reads s"
  "runReviewOnly (env\<lparr>readFile := f\<rparr>) (r\<lparr>cfg := (cfg r)\<lparr>PlanFile := p\<rparr>\<rparr>) s
     = runReviewOnly env r s"
proof -
  let ?s0 = "Print ''starting review phase'' [] (SetPhase PhaseReview s)"
  obtain e1 s1 where r1: "runClaudeReview env r buildFirstReviewPrompt ?s0 = (e1, s1)"
    by (cases "runClaudeReview env r buildFirstReviewPrompt ?s0")
  have s1: "file_reads s1 = file_reads s"
    using runClaudeReview_file_reads [of env r buildFirstReviewPrompt ?s0] r1 by simp
  let ?sc = "Print ''starting codex analysis phase'' [] (SetPhase PhaseCodex s1)"
  obtain fi e s2 where ph: "runCodexPhase r ?sc = ((fi, e), s2)"
    by (cases "runCodexPhase r ?sc") auto
  have s2: "file_reads s2 = file_reads s"
    using runCodexPhase_file_reads [of r ?sc] ph s1 by simp
  let ?s3 = "Print ''starting second review phase (addressing codex findings)'' []
               (SetPhase PhaseReview s2)"
  obtain e2 s4 where rv: "runClaudeReview env r (buildSecondReviewPrompt fi) ?s3 = (e2, s4)"
    by (cases "runClaudeReview env r (buildSecondReviewPrompt fi) ?s3")
  have s4: "file_reads s4 = file_reads s"
    using runClaudeReview_file_reads [of env r "buildSecondReviewPrompt fi" ?s3] rv s2 by simp
  show "file_reads (snd (runReviewOnly env r s)) = file_reads s"
    using r1 ph rv s1 s2 s4 by (simp add: runReviewOnly_def Let_def split: option.splits)
  show "runReviewOnly (env\<lparr>readFile := f\<rparr>) (r\<lparr>cfg := (cfg r)\<lparr>PlanFile := p\<rparr>\<rparr>) s
     = runReviewOnly env r s"
    by (simp add: runReviewOnly_def Let_def cong: prod.case_cong option.case_cong if_cong)
qed

lemma runTaskPhase_unreadable:
  assumes "readFile env (PlanFile (cfg r)) = Inl e" and "1 \<le> MaxIterations (cfg r)"
    and "\<not> ctxDone env (length (claude_calls s))"
  shows "fst (runTaskPhase env r s) = Some (Wrapf ''read plan file'' e)"
    and "claude_calls (snd (runTaskPhase env r s)) = claude_calls s"
    and "codex_calls (snd (runTaskPhase env r s)) = codex_calls s"
proof -
  obtain fl s1 where it: "taskIteration env r 1 [] s = (fl, s1)"
    by (cases "taskIteration env r 1 [] s")
  have "fl = Return (Some (Wrapf ''read plan file'' e))"
    and "claude_calls s1 = claude_calls s"
    and "codex_calls s1 = codex_calls s"
    using assms(1,3) it
    by (auto simp: taskIteration_def buildTaskPrompt_def Let_def Print_def)
  then show "fst (runTaskPhase env r s) = Some (Wrapf ''read plan file'' e)"
    and "claude_calls (snd (runTaskPhase env r s)) = claude_calls s"
    and "codex_calls (snd (runTaskPhase env r s)) = codex_calls s"
    using assms(2) it by (simp_all add: runTaskPhase_def taskLoop_Return)
qed

text \<open>
  C8. In the full pipeline an empty \<open>PlanFile\<close> makes the run fail at once with
  \<open>plan file required for full mode\<close>, the state untouched, so before any invocation;
  a plan file that cannot be read makes the first Task iteration (there is one when the
  cap is at least 1 and the context is not done) fail with the read-plan-file error,
  again before any invocation. In the review and codex-only pipelines no file is read,
  and neither the configured path nor the file system changes the run.
\<close>

theorem plan_file_requirement:
  "(PlanFile (cfg r) = [] \<longrightarrow>
      runFull env r s = (Some (ErrorsNew ''plan file required for full mode''), s))
   \<and> (\<forall>e. PlanFile (cfg r) \<noteq> [] \<and> readFile env (PlanFile (cfg r)) = Inl e
          \<and> 1 \<le> MaxIterations (cfg r) \<and> \<not> ctxDone env (length (claude_calls s)) \<longrightarrow>
        fst (runTaskPhase env r s) = Some (Wrapf ''read plan file'' e)
      \<and> fst (runFull env r s) = Some (Wrapf ''task phase'' (Wrapf ''read plan file'' e))
      \<and> claude_calls (snd (runFull env r s)) = claude_calls s
      \<and> codex_calls (snd (runFull env r s)) = codex_calls s)
   \<and> (Mode (cfg r) = ModeReview \<or> Mode (cfg r) = ModeCodexOnly \<longrightarrow>
        file_reads (snd (Run env r s)) = file_reads s
      \<and> Run (env\<lparr>readFile := f\<rparr>) (r\<lparr>cfg := (cfg r)\<lparr>PlanFile := p\<rparr>\<rparr>) s = Run env r s)"
proof (intro conjI allI impI)
  show "runFull env r s = (Some (ErrorsNew ''plan file required for full mode''), s)"
    if "PlanFile (cfg r) = []"
    using that by (simp add: runFull_def)
next
  fix e
  assume h: "PlanFile (cfg r) \<noteq> [] \<and> readFile env (PlanFile (cfg r)) = Inl e
          \<and> 1 \<le> MaxIterations (cfg r) \<and> \<not> ctxDone env (length (claude_calls s))"
  let ?s0 = "Print ''starting task execution phase'' [] (SetPhase PhaseTask s)"
  show "fst (runTaskPhase env r s) = Some (Wrapf ''read plan file'' e)"
    using runTaskPhase_unreadable(1) [of env r e s] h by simp
  obtain e0 s1 where t: "runTaskPhase env r ?s0 = (e0, s1)"
    by (cases "runTaskPhase env r ?s0")
  have "e0 = Some (Wrapf ''read plan file'' e)" "claude_calls s1 = claude_calls s"
    "codex_calls s1 = codex_calls s"
    using runTaskPhase_unreadable [of env r e ?s0] h t by simp_all
  then show "fst (runFull env r s) = Some (Wrapf ''task phase'' (Wrapf ''read plan file'' e))"
    and "claude_calls (snd (runFull env r s)) = claude_calls s"
    and "codex_calls (snd (runFull env r s)) = codex_calls s"
    using h t by (simp_all add: runFull_def Let_def)
next
  assume m: "Mode (cfg r) = ModeReview \<or> Mode (cfg r) = ModeCodexOnly"
  have ne: "ModeReview \<noteq> ModeFull" "ModeCodexOnly \<noteq> ModeFull" "ModeCodexOnly \<noteq> ModeReview"
    by (simp_all add: ModeReview_def ModeFull_def ModeCodexOnly_def)
  show "file_reads (snd (Run env r s)) = file_reads s"
    using m ne by (auto simp: Run_def runReviewOnly_plan(1) runCodexOnly_plan(1))
  show "Run (env\<lparr>readFile := f\<rparr>) (r\<lparr>cfg := (cfg r)\<lparr>PlanFile := p\<rparr>\<rparr>) s = Run env r s"
    using m ne by (auto simp: Run_def runReviewOnly_plan(2) runCodexOnly_plan(2))
qed

theorem plan_file_requirement_witness:
  "runFull testEnv
     ((testRunner ModeFull 10 (mockExecutor []) (mockExecutor []))
        \<lparr>cfg := (cfg (testRunner ModeFull 10 (mockExecutor []) (mockExecutor [])))
                  \<lparr>PlanFile := []\<rparr>\<rparr>)
     testState
    = (Some (ErrorsNew ''plan file required for full mode''), testState)
   \<and> fst (runFull testEnv
        ((testRunner ModeFull 10 (mockExecutor []) (mockExecutor []))
           \<lparr>cfg := (cfg (testRunner ModeFull 10 (mockExecutor []) (mockExecutor [])))
                     \<lparr>PlanFile := ''/nonexistent/file.md''\<rparr>\<rparr>)
        testState)
      = Some (Wrapf ''task phase''
                (Wrapf ''read plan file'' (External ''no such file or directory'')))
   \<and> file_reads (snd (Run testEnv
        (testRunner ModeCodexOnly 10 (mockExecutor [])
           (mockExecutor [\<lparr>Output = [], Signal = [], Err = None\<rparr>]))
        testState)) = []"
proof -
  let ?r0 = "testRunner ModeFull 10 (mockExecutor []) (mockExecutor [])"
  let ?ra = "?r0\<lparr>cfg := (cfg ?r0)\<lparr>PlanFile := []\<rparr>\<rparr>"
  let ?ru = "?r0\<lparr>cfg := (cfg ?r0)\<lparr>PlanFile := ''/nonexistent/file.md''\<rparr>\<rparr>"
  let ?rc = "testRunner ModeCodexOnly 10 (mockExecutor [])
           (mockExecutor [\<lparr>Output = [], Signal = [], Err = None\<rparr>])"
  have a: "PlanFile (cfg ?ra) = []" by simp
  have u: "PlanFile (cfg ?ru) \<noteq> []
          \<and> readFile testEnv (PlanFile (cfg ?ru)) = Inl (External ''no such file or directory'')
          \<and> 1 \<le> MaxIterations (cfg ?ru) \<and> \<not> ctxDone testEnv (length (claude_calls testState))"
    by (simp add: testRunner_def testEnv_def)
  have c: "Mode (cfg ?rc) = ModeReview \<or> Mode (cfg ?rc) = ModeCodexOnly"
    by (simp add: testRunner_def)
  show ?thesis
    using plan_file_requirement [of ?ra testEnv testState, THEN conjunct1] a
      plan_file_requirement [of ?ru testEnv testState, THEN conjunct2, THEN conjunct1] u
      plan_file_requirement [of ?rc testEnv testState, THEN conjunct2, THEN conjunct2] c
    by (simp add: testState_def)
qed

section \<open>Lines of the stream reader\<close>

text \<open>
  C3. The reader is to deliver every line with its terminator stripped and nothing else
  removed. \<open>readLines\<close> trims with \<open>strings.TrimRight(line, "\r\n")\<close>, which removes
  every trailing carriage return and newline, not one terminator. On the stream
  \<open>a\r\r\n\<close>, one line whose content is \<open>a\r\<close> and whose terminator is \<open>\r\n\<close>,
  the handler receives \<open>a\<close>: the carriage return that belongs to the content is lost.
\<close>

theorem readLines_strips_content:
  "readLines (\<lambda>n. False) (External ''context canceled'') (''a'' @ [cr, cr, nl], EOF)
     = (None, [''a''])
   \<and> stripTerminator (''a'' @ [cr, cr, nl]) = ''a'' @ [cr]
   \<and> ''a'' \<noteq> ''a'' @ [cr]"
  by (simp add: readLines_def readLoop.simps ReadString_def TrimRight_def stripTerminator_def
        nl_def cr_def suffix_def)

section \<open>Opening the progress log\<close>

lemma sublist_in_tail:
  assumes "length m + length post \<le> k"
  shows "sublist m (drop (length (pre @ m @ post) - k) (pre @ m @ post))"
proof -
  define d where "d = length (pre @ m @ post) - k"
  have "d - length pre = 0" using assms by (simp add: d_def)
  then have "drop d (pre @ (m @ post)) = drop d pre @ m @ post"
    by (simp only: drop_append [of d pre] drop_0)
  then have "drop (length (pre @ m @ post) - k) (pre @ m @ post)
               = drop (length (pre @ m @ post) - k) pre @ m @ post"
    by (simp only: d_def)
  then show ?thesis by (simp only: sublist_appendI)
qed

lemma marker_in_tail:
  assumes "length post \<le> 246"
  shows "isProgressCompleted (Some (pre @ ''Completed:'' @ post))"
proof -
  have "length ''Completed:'' + length post \<le> 256" using assms by simp
  then show ?thesis
    unfolding isProgressCompleted_def Contains_def option.case
    by (rule sublist_in_tail)
qed

text \<open>
  C4. Opening the progress log when no other writer holds the lock. On a file that is
  not empty and bears a completion footer, the file is truncated and holds the fresh
  header alone; on a file that is not empty and bears none, the restart separator is
  appended after all the earlier bytes; on an empty or a missing file the fresh header
  is written and the restart flag is off. The footer is recognised by the marker
  \<open>Completed:\<close> in the last 256 bytes, so every file that ends with a footer line of at
  most 256 bytes, as \<open>Close\<close> writes it, bears one.
\<close>

theorem progress_log_open:
  "(\<forall>c. file = Some c \<and> c \<noteq> [] \<and> isProgressCompleted file \<longrightarrow>
       NewLogger header separator False file = Opened header False)
   \<and> (\<forall>c. file = Some c \<and> c \<noteq> [] \<and> \<not> isProgressCompleted file \<longrightarrow>
       NewLogger header separator False file = Opened (c @ separator) True)
   \<and> (file = None \<or> file = Some [] \<longrightarrow>
       NewLogger header separator False file = Opened header False)
   \<and> (\<forall>pre post. length post \<le> 246 \<longrightarrow>
       isProgressCompleted (Some (pre @ ''Completed:'' @ post)))"
  using marker_in_tail by (auto simp: NewLogger_def)

theorem progress_log_open_witness:
  "NewLogger ''header'' ''restart'' False
     (Some (''entry'' @ [nl] @ ''Completed: 2026-02-18 10:00:00 (1m30s)'' @ [nl]))
     = Opened ''header'' False
   \<and> NewLogger ''header'' ''restart'' False (Some (''entry'' @ [nl]))
     = Opened (''entry'' @ [nl] @ ''restart'') True
   \<and> NewLogger ''header'' ''restart'' False None = Opened ''header'' False
   \<and> NewLogger ''header'' ''restart'' False (Some []) = Opened ''header'' False"
proof -
  have completed: "isProgressCompleted
      (Some (''entry'' @ [nl] @ ''Completed: 2026-02-18 10:00:00 (1m30s)'' @ [nl]))"
    using progress_log_open
            [of "Some []" "''h''" "''s''", THEN conjunct2, THEN conjunct2, THEN conjunct2,
             rule_format, of "'' 2026-02-18 10:00:00 (1m30s)'' @ [nl]" "''entry'' @ [nl]"]
    by simp
  have crashed: "\<not> isProgressCompleted (Some (''entry'' @ [nl]))"
    by (simp add: isProgressCompleted_def Contains_def sublist_code prefix_code nl_def)
  show ?thesis
    using progress_log_open
            [of "Some (''entry'' @ [nl] @ ''Completed: 2026-02-18 10:00:00 (1m30s)'' @ [nl])"
                "''header''" "''restart''", THEN conjunct1] completed
          progress_log_open
            [of "Some (''entry'' @ [nl])" "''header''" "''restart''",
             THEN conjunct2, THEN conjunct1] crashed
          progress_log_open
            [of None "''header''" "''restart''", THEN conjunct2, THEN conjunct2, THEN conjunct1]
          progress_log_open
            [of "Some []" "''header''" "''restart''", THEN conjunct2, THEN conjunct2,
             THEN conjunct1]
    by simp
qed

section \<open>Completion and the iteration cap of the Task phase\<close>

lemma taskLoop_completed:
  "\<forall>k. length (claude_calls s) \<le> k
       \<and> k < length (claude_calls (snd (taskLoop env r i lastO s)))
       \<and> Err (resultAt (claude r) (claude_calls (snd (taskLoop env r i lastO s))) k) = None
       \<and> Signal (resultAt (claude r) (claude_calls (snd (taskLoop env r i lastO s))) k)
            = SignalCompleted \<longrightarrow>
      Suc k = length (claude_calls (snd (taskLoop env r i lastO s)))
    \<and> fst (taskLoop env r i lastO s) = None"
  (is "?F env r i lastO s")
proof (induction env r i lastO s rule: taskLoop.induct)
  case (1 env r i lastO s)
  let ?n = "length (claude_calls s)"
  show ?case
  proof (cases "i \<le> MaxIterations (cfg r)")
    case False
    then show ?thesis by (auto simp: taskLoop_stop)
  next
    case le: True
    obtain f s1 where it: "taskIteration env r i lastO s = (f, s1)"
      by (cases "taskIteration env r i lastO s")
    consider (quiet) e where "claude_calls s1 = claude_calls s" "f = Return (Some e)"
      | (call) p where "claude_calls s1 = claude_calls s @ [p]"
          "f = (case Err (claude r (claude_calls s) p) of
              Some e \<Rightarrow> Return (Some (Wrapf ''claude execution'' e))
            | None \<Rightarrow>
                if Signal (claude r (claude_calls s) p) = SignalFailed
                then Return (Some (ErrorsNew ''task execution failed (FAILED signal received)''))
                else if Signal (claude r (claude_calls s) p) = SignalCompleted
                then Return None
                else Next (Output (claude r (claude_calls s) p)))"
      using taskIteration_calls [of env r i lastO s] it by auto
    then show ?thesis
    proof cases
      case quiet
      then show ?thesis using le it by (auto simp: taskLoop_Return)
    next
      case (call p)
      let ?res = "claude r (claude_calls s) p"
      show ?thesis
      proof (cases f)
        case (Return e)
        have eq: "taskLoop env r i lastO s = (e, s1)"
          using le it Return by (simp add: taskLoop_Return)
        have r0: "resultAt (claude r) (claude_calls s @ [p]) ?n = ?res"
          by (simp add: resultAt_def)
        have k: "\<And>k. ?n \<le> k \<Longrightarrow> k < Suc ?n \<Longrightarrow> k = ?n" by simp
        show ?thesis
          unfolding eq using call Return r0
          by (auto dest!: k simp: signals_distinct split: option.splits if_splits)
      next
        case (Next out)
        let ?c = "claude_calls (snd (taskLoop env r (i + 1) out s1))"
        have eq: "taskLoop env r i lastO s = taskLoop env r (i + 1) out s1"
          using le it Next by (simp add: taskLoop_Next)
        have ih: "?F env r (i + 1) out s1"
          using "1.IH" [OF le it [symmetric] Next] .
        have inner: "take (Suc ?n) ?c = claude_calls s @ [p]" "Suc ?n \<le> length ?c"
          using taskLoop_calls [of s1 env r "i + 1" out] call(1) by simp_all
        have "take ?n ?c = take ?n (take (Suc ?n) ?c)" by simp
        also have "\<dots> = claude_calls s" unfolding inner(1) by simp
        finally have a: "take ?n ?c = claude_calls s" .
        have "?c ! ?n = take (Suc ?n) ?c ! ?n" by simp
        also have "\<dots> = p" unfolding inner(1) by simp
        finally have b: "?c ! ?n = p" .
        have r0: "resultAt (claude r) ?c ?n = ?res"
          using a b by (simp add: resultAt_def)
        have res: "Err ?res = None" "Signal ?res \<noteq> SignalCompleted"
          using call(2) Next by (auto split: option.splits if_splits)
        show ?thesis
          unfolding eq
        proof (intro allI impI)
          fix k assume k: "?n \<le> k \<and> k < length ?c
             \<and> Err (resultAt (claude r) ?c k) = None
             \<and> Signal (resultAt (claude r) ?c k) = SignalCompleted"
          then have "k \<noteq> ?n" using r0 res by auto
          then have "length (claude_calls s1) \<le> k" using k call(1) by simp
          then show "Suc k = length ?c \<and> fst (taskLoop env r (i + 1) out s1) = None"
            using ih k by blast
        qed
      qed
    qed
  qed
qed

lemma taskLoop_first_call:
  assumes "\<not> ctxDone env (length (claude_calls s))" and "1 \<le> MaxIterations (cfg r)"
    and "buildTaskPrompt (readFile env) (PlanFile (cfg r)) 1 = Inr p"
  shows "length (claude_calls s) < length (claude_calls (snd (taskLoop env r 1 lastO s)))"
    and "claude_calls (snd (taskLoop env r 1 lastO s)) ! length (claude_calls s) = p"
proof -
  obtain f s1 where it: "taskIteration env r 1 lastO s = (f, s1)"
    by (cases "taskIteration env r 1 lastO s")
  have c1: "claude_calls s1 = claude_calls s @ [p]"
    using assms(1,3) it
    by (auto simp: taskIteration_def Let_def claudeRun_def Print_def
             split: option.splits if_splits)
  have "length (claude_calls s) < length (claude_calls (snd (taskLoop env r 1 lastO s)))
      \<and> claude_calls (snd (taskLoop env r 1 lastO s)) ! length (claude_calls s) = p"
  proof (cases f)
    case (Return e)
    then show ?thesis using assms(2) it c1 by (simp add: taskLoop_Return)
  next
    case (Next out)
    let ?c = "claude_calls (snd (taskLoop env r (1 + 1) out s1))"
    have eq: "taskLoop env r 1 lastO s = taskLoop env r (1 + 1) out s1"
      using assms(2) it Next by (simp add: taskLoop_Next)
    have inner: "take (Suc (length (claude_calls s))) ?c = claude_calls s @ [p]"
      "Suc (length (claude_calls s)) \<le> length ?c"
      using taskLoop_calls [of s1 env r "1 + 1" out] c1 by simp_all
    have "?c ! length (claude_calls s)
            = take (Suc (length (claude_calls s))) ?c ! length (claude_calls s)"
      by simp
    also have "\<dots> = p" unfolding inner(1) by simp
    finally show ?thesis unfolding eq using inner(2) by simp
  qed
  then show "length (claude_calls s) < length (claude_calls (snd (taskLoop env r 1 lastO s)))"
    and "claude_calls (snd (taskLoop env r 1 lastO s)) ! length (claude_calls s) = p"
    by simp_all
qed

text \<open>
  C1. In a Task phase, when the first result of the executor has no error and the signal
  \<open>COMPLETED\<close>, the phase returns success after exactly one invocation. With a cap of
  at least 1, a plan file that can be read and a context that is not done, that first
  invocation is made, with the task prompt. When moreover the context is never done and
  every result has no error and a signal that is neither \<open>COMPLETED\<close> nor \<open>FAILED\<close>,
  the phase makes exactly as many invocations as the cap and fails with the
  max-iterations error.
\<close>

theorem task_phase_completed_or_cap:
  "(length (claude_calls s) < length (claude_calls (snd (runTaskPhase env r s)))
      \<and> Err (resultAt (claude r) (claude_calls (snd (runTaskPhase env r s)))
              (length (claude_calls s))) = None
      \<and> Signal (resultAt (claude r) (claude_calls (snd (runTaskPhase env r s)))
              (length (claude_calls s))) = SignalCompleted \<longrightarrow>
      fst (runTaskPhase env r s) = None
    \<and> length (claude_calls (snd (runTaskPhase env r s))) = length (claude_calls s) + 1)
   \<and> (\<forall>p. 1 \<le> MaxIterations (cfg r)
        \<and> buildTaskPrompt (readFile env) (PlanFile (cfg r)) 1 = Inr p
        \<and> \<not> ctxDone env (length (claude_calls s)) \<longrightarrow>
      length (claude_calls s) < length (claude_calls (snd (runTaskPhase env r s)))
    \<and> claude_calls (snd (runTaskPhase env r s)) ! length (claude_calls s) = p)
   \<and> (\<forall>p. 1 \<le> MaxIterations (cfg r)
        \<and> buildTaskPrompt (readFile env) (PlanFile (cfg r)) 1 = Inr p
        \<and> (\<forall>n. \<not> ctxDone env n)
        \<and> (\<forall>h q. Err (claude r h q) = None \<and> \<not> IsTerminalSignal (Signal (claude r h q))) \<longrightarrow>
      fst (runTaskPhase env r s) =
        Some (ErrorsNew (''max iterations ('' @ itoa (MaxIterations (cfg r))
                           @ '') reached without completion''))
    \<and> length (claude_calls (snd (runTaskPhase env r s)))
        = length (claude_calls s) + nat (MaxIterations (cfg r)))"
proof (intro conjI allI impI)
  assume h: "length (claude_calls s) < length (claude_calls (snd (runTaskPhase env r s)))
      \<and> Err (resultAt (claude r) (claude_calls (snd (runTaskPhase env r s)))
              (length (claude_calls s))) = None
      \<and> Signal (resultAt (claude r) (claude_calls (snd (runTaskPhase env r s)))
              (length (claude_calls s))) = SignalCompleted"
  then have "Suc (length (claude_calls s)) = length (claude_calls (snd (runTaskPhase env r s)))
      \<and> fst (runTaskPhase env r s) = None"
    using taskLoop_completed [of s env r 1 "[]", rule_format, of "length (claude_calls s)"]
    unfolding runTaskPhase_def by simp
  then show "fst (runTaskPhase env r s) = None"
    and "length (claude_calls (snd (runTaskPhase env r s))) = length (claude_calls s) + 1"
    by simp_all
next
  fix p
  assume "1 \<le> MaxIterations (cfg r)
        \<and> buildTaskPrompt (readFile env) (PlanFile (cfg r)) 1 = Inr p
        \<and> \<not> ctxDone env (length (claude_calls s))"
  then show "length (claude_calls s) < length (claude_calls (snd (runTaskPhase env r s)))"
    and "claude_calls (snd (runTaskPhase env r s)) ! length (claude_calls s) = p"
    using taskLoop_first_call [of env s r p "[]"] unfolding runTaskPhase_def by simp_all
next
  fix p
  assume h: "1 \<le> MaxIterations (cfg r)
        \<and> buildTaskPrompt (readFile env) (PlanFile (cfg r)) 1 = Inr p
        \<and> (\<forall>n. \<not> ctxDone env n)
        \<and> (\<forall>h q. Err (claude r h q) = None \<and> \<not> IsTerminalSignal (Signal (claude r h q)))"
  then have cap: "1 \<le> MaxIterations (cfg r)"
    and plan: "buildTaskPrompt (readFile env) (PlanFile (cfg r)) 1 = Inr p"
    and live: "\<forall>n. \<not> ctxDone env n"
    and never: "\<forall>h q. Err (claude r h q) = None \<and> \<not> IsTerminalSignal (Signal (claude r h q))"
    by simp_all
  let ?res = "claude r (claude_calls s) p"
  have nd: "\<not> ctxDone env (length (claude_calls s))" using live by simp
  obtain f s1 where it: "taskIteration env r 1 [] s = (f, s1)"
    by (cases "taskIteration env r 1 [] s")
  have f: "f = Next (Output ?res)" and calls: "claude_calls s1 = claude_calls s @ [p]"
    using taskIteration_first(2,3) [OF nd plan, of "[]"] never it by simp_all
  have rest: "fst (taskLoop env r 2 (Output ?res) s1) =
           Some (ErrorsNew (''max iterations ('' @ itoa (MaxIterations (cfg r))
                              @ '') reached without completion''))
       \<and> length (claude_calls (snd (taskLoop env r 2 (Output ?res) s1)))
           = length (claude_calls s1) + nat (MaxIterations (cfg r) + 1 - 2)"
    using taskLoop_never_terminal [OF never live, of 2] by simp
  have unfold: "runTaskPhase env r s = taskLoop env r 2 (Output ?res) s1"
    using cap it f by (simp add: runTaskPhase_def taskLoop.simps [of env r 1])
  show "fst (runTaskPhase env r s) =
            Some (ErrorsNew (''max iterations ('' @ itoa (MaxIterations (cfg r))
                               @ '') reached without completion''))"
    using rest unfold by simp
  show "length (claude_calls (snd (runTaskPhase env r s)))
                = length (claude_calls s) + nat (MaxIterations (cfg r))"
    using rest unfold calls cap by simp
qed

theorem task_phase_completed_or_cap_witness:
  "fst (runTaskPhase testEnv
          (testRunner ModeFull 10
             (mockExecutor [\<lparr>Output = ''task done'', Signal = SignalCompleted, Err = None\<rparr>])
             (mockExecutor []))
          testState) = None
   \<and> length (claude_calls (snd (runTaskPhase testEnv
          (testRunner ModeFull 10
             (mockExecutor [\<lparr>Output = ''task done'', Signal = SignalCompleted, Err = None\<rparr>])
             (mockExecutor []))
          testState))) = 1
   \<and> fst (runTaskPhase testEnv
          (testRunner ModeFull 3
             (always \<lparr>Output = ''working...'', Signal = [], Err = None\<rparr>) (mockExecutor []))
          testState)
       = Some (ErrorsNew ''max iterations (3) reached without completion'')
   \<and> length (claude_calls (snd (runTaskPhase testEnv
          (testRunner ModeFull 3
             (always \<lparr>Output = ''working...'', Signal = [], Err = None\<rparr>) (mockExecutor []))
          testState))) = 3"
proof -
  let ?rc = "testRunner ModeFull 10
             (mockExecutor [\<lparr>Output = ''task done'', Signal = SignalCompleted, Err = None\<rparr>])
             (mockExecutor [])"
  let ?rn = "testRunner ModeFull 3
             (always \<lparr>Output = ''working...'', Signal = [], Err = None\<rparr>) (mockExecutor [])"
  let ?p = "projr (buildTaskPrompt (readFile testEnv) ''plan.md'' 1)"
  let ?c = "claude_calls (snd (runTaskPhase testEnv ?rc testState))"
  have plan: "buildTaskPrompt (readFile testEnv) ''plan.md'' 1 = Inr ?p"
    by (simp add: buildTaskPrompt_def testEnv_def)
  have st: "claude_calls testState = []" by (simp add: testState_def)
  have first: "0 < length ?c \<and> ?c ! 0 = ?p"
    using task_phase_completed_or_cap [of testState testEnv ?rc, THEN conjunct2, THEN conjunct1,
            rule_format, of ?p] plan
    by (simp add: st testRunner_def testEnv_def)
  then have res: "resultAt (claude ?rc) ?c 0
      = \<lparr>Output = ''task done'', Signal = SignalCompleted, Err = None\<rparr>"
    by (simp add: resultAt_def testRunner_def mockExecutor_def)
  have a: "fst (runTaskPhase testEnv ?rc testState) = None \<and> length ?c = 1"
    using task_phase_completed_or_cap [of testState testEnv ?rc, THEN conjunct1] first res
    by (simp add: st)
  have b: "fst (runTaskPhase testEnv ?rn testState)
       = Some (ErrorsNew (''max iterations ('' @ itoa (MaxIterations (cfg ?rn))
                           @ '') reached without completion''))
     \<and> length (claude_calls (snd (runTaskPhase testEnv ?rn testState)))
       = length (claude_calls testState) + nat (MaxIterations (cfg ?rn))"
    using task_phase_completed_or_cap [of testState testEnv ?rn, THEN conjunct2, THEN conjunct2,
            rule_format, of ?p] plan
    by (simp add: testRunner_def testEnv_def always_def IsTerminalSignal_def signal_defs)
  show ?thesis
    using a b by (simp add: st testRunner_def itoa_3)
qed

section \<open>What the stream reader delivers\<close>

text \<open>
  On a stream that ends at the end of the input, with a context that is never done,
  \<open>readLines\<close> returns no error and calls the handler once for every line, in order,
  whatever its length, with \<open>TrimRight\<close> applied. For a line whose content does not end
  with a carriage return this is the line with its terminator stripped.
\<close>

lemma splitAcc_no_newline:
  "nl \<notin> set l \<Longrightarrow> splitAcc cur l = (if cur @ l = [] then [] else [cur @ l])"
  by (induction l arbitrary: cur) auto

lemma splitAcc_newline:
  "nl \<notin> set l \<Longrightarrow> splitAcc cur (l @ nl # rest) = (cur @ l @ [nl]) # splitAcc [] rest"
  by (induction l arbitrary: cur) auto

lemma ReadString_newline:
  "nl \<notin> set l \<Longrightarrow> ReadString nl (l @ nl # rest, fin) = (l @ [nl], None, (rest, fin))"
proof -
  assume l: "nl \<notin> set l"
  then have all: "\<forall>x \<in> set l. x \<noteq> nl" by auto
  have "takeWhile (\<lambda>c. c \<noteq> nl) (l @ nl # rest) = l"
    using all by (simp add: takeWhile_append2)
  moreover have "dropWhile (\<lambda>c. c \<noteq> nl) (l @ nl # rest) = nl # rest"
    using all by (simp add: dropWhile_append2)
  ultimately show ?thesis by (simp add: ReadString_def)
qed

lemma ReadString_end:
  "nl \<notin> set l \<Longrightarrow> ReadString nl (l, fin) = (l, Some fin, ([], fin))"
  by (simp add: ReadString_def)

lemma readLoop_lines:
  "\<forall>n. \<not> cancelled n \<Longrightarrow>
   readLoop cancelled cause n (buf, EOF) handled
     = (None, handled @ map (\<lambda>l. TrimRight l [cr, nl]) (splitLines buf))"
proof (induction "length buf" arbitrary: buf n handled rule: less_induct)
  case less
  show ?case
  proof (cases "nl \<in> set buf")
    case False
    then show ?thesis
      using less.prems
      by (simp add: readLoop.simps [of cancelled cause n] ReadString_end splitLines_def
            splitAcc_no_newline)
  next
    case True
    then obtain l rest where buf: "buf = l @ nl # rest" and l: "nl \<notin> set l"
      by (meson split_list_first)
    have "length rest < length buf" using buf by simp
    then have "readLoop cancelled cause (n + 1) (rest, EOF) (handled @ [TrimRight (l @ [nl]) [cr, nl]])
        = (None, (handled @ [TrimRight (l @ [nl]) [cr, nl]])
                  @ map (\<lambda>l. TrimRight l [cr, nl]) (splitLines rest))"
      using less.hyps less.prems by blast
    then show ?thesis
      using less.prems l unfolding buf
      by (simp add: readLoop.simps [of cancelled cause n] ReadString_newline splitLines_def
            splitAcc_newline)
  qed
qed

lemma TrimRight_line:
  assumes "nl \<notin> set c" and "c = [] \<or> last c \<noteq> cr"
  shows "TrimRight c [cr, nl] = c"
    and "TrimRight (c @ [nl]) [cr, nl] = c" and "stripTerminator (c @ [nl]) = c"
    and "TrimRight (c @ [cr, nl]) [cr, nl] = c" and "stripTerminator (c @ [cr, nl]) = c"
proof -
  have keep: "dropWhile (\<lambda>x. x \<in> set [cr, nl]) (rev c) = rev c"
  proof (cases c rule: rev_cases)
    case Nil
    then show ?thesis by simp
  next
    case (snoc ys y)
    then have "y \<noteq> cr" "y \<noteq> nl" using assms by auto
    then show ?thesis using snoc by simp
  qed
  show "TrimRight c [cr, nl] = c" "TrimRight (c @ [nl]) [cr, nl] = c"
    "TrimRight (c @ [cr, nl]) [cr, nl] = c"
    using keep by (simp_all add: TrimRight_def)
  have ne: "cr \<noteq> nl" by (simp add: cr_def nl_def)
  have "\<not> suffix [cr, nl] (c @ [nl])"
  proof (cases c rule: rev_cases)
    case Nil
    then show ?thesis by (simp add: suffix_to_prefix)
  next
    case (snoc ys y)
    then have "y \<noteq> cr" using assms by simp
    then show ?thesis using snoc by (simp add: suffix_to_prefix)
  qed
  then show "stripTerminator (c @ [nl]) = c"
    by (simp add: stripTerminator_def suffix_to_prefix)
  show "stripTerminator (c @ [cr, nl]) = c"
    by (simp add: stripTerminator_def suffix_to_prefix)
qed

section \<open>The continue prompt after a non-terminal iteration\<close>

lemma taskIteration_prompt:
  "(claude_calls (snd (taskIteration env r i lastO s)) = claude_calls s
      \<and> (\<exists>e. fst (taskIteration env r i lastO s) = Return (Some e)))
   \<or> (\<exists>p. claude_calls (snd (taskIteration env r i lastO s)) = claude_calls s @ [p]
      \<and> (i \<noteq> 1 \<longrightarrow> p = buildContinuePrompt lastO)
      \<and> fst (taskIteration env r i lastO s) =
           (case Err (claude r (claude_calls s) p) of
              Some e \<Rightarrow> Return (Some (Wrapf ''claude execution'' e))
            | None \<Rightarrow>
                if Signal (claude r (claude_calls s) p) = SignalFailed
                then Return (Some (ErrorsNew ''task execution failed (FAILED signal received)''))
                else if Signal (claude r (claude_calls s) p) = SignalCompleted
                then Return None
                else Next (Output (claude r (claude_calls s) p))))"
proof (cases "ctxDone env (length (claude_calls s))")
  case True
  then show ?thesis by (simp add: taskIteration_def)
next
  case live: False
  show ?thesis
  proof (cases "if i = 1 then buildTaskPrompt (readFile env) (PlanFile (cfg r)) i
                else Inr (buildContinuePrompt lastO)")
    case (Inl err)
    then have "claude_calls (snd (taskIteration env r i lastO s)) = claude_calls s"
      and "fst (taskIteration env r i lastO s) = Return (Some err)"
      using live by (simp_all add: taskIteration_def Let_def Print_def)
    then show ?thesis by blast
  next
    case (Inr p)
    then have "claude_calls (snd (taskIteration env r i lastO s)) = claude_calls s @ [p]"
      and "i \<noteq> 1 \<longrightarrow> p = buildContinuePrompt lastO"
      and "fst (taskIteration env r i lastO s) =
           (case Err (claude r (claude_calls s) p) of
              Some e \<Rightarrow> Return (Some (Wrapf ''claude execution'' e))
            | None \<Rightarrow>
                if Signal (claude r (claude_calls s) p) = SignalFailed
                then Return (Some (ErrorsNew ''task execution failed (FAILED signal received)''))
                else if Signal (claude r (claude_calls s) p) = SignalCompleted
                then Return None
                else Next (Output (claude r (claude_calls s) p)))"
      using live
      by (auto simp: taskIteration_def Let_def claudeRun_def Print_def IsTerminalSignal_def
            signals_distinct split: option.splits if_splits)
    then show ?thesis by blast
  qed
qed

lemma taskLoop_prompts:
  "1 \<le> i \<longrightarrow>
     (i \<noteq> 1 \<and> length (claude_calls s) < length (claude_calls (snd (taskLoop env r i lastO s)))
        \<longrightarrow> claude_calls (snd (taskLoop env r i lastO s)) ! length (claude_calls s)
              = buildContinuePrompt lastO)
   \<and> (\<forall>k. length (claude_calls s) \<le> k
          \<and> Suc k < length (claude_calls (snd (taskLoop env r i lastO s))) \<longrightarrow>
         Err (resultAt (claude r) (claude_calls (snd (taskLoop env r i lastO s))) k) = None
       \<and> \<not> IsTerminalSignal
             (Signal (resultAt (claude r) (claude_calls (snd (taskLoop env r i lastO s))) k))
       \<and> claude_calls (snd (taskLoop env r i lastO s)) ! Suc k =
           buildContinuePrompt
             (Output (resultAt (claude r) (claude_calls (snd (taskLoop env r i lastO s))) k)))"
  (is "?P env r i lastO s")
proof (induction env r i lastO s rule: taskLoop.induct)
  case (1 env r i lastO s)
  let ?n = "length (claude_calls s)"
  show ?case
  proof (cases "i \<le> MaxIterations (cfg r)")
    case False
    then show ?thesis by (auto simp: taskLoop_stop)
  next
    case le: True
    obtain f s1 where it: "taskIteration env r i lastO s = (f, s1)"
      by (cases "taskIteration env r i lastO s")
    consider (quiet) e where "claude_calls s1 = claude_calls s" "f = Return (Some e)"
      | (call) p where "claude_calls s1 = claude_calls s @ [p]"
          "i \<noteq> 1 \<longrightarrow> p = buildContinuePrompt lastO"
          "f = (case Err (claude r (claude_calls s) p) of
              Some e \<Rightarrow> Return (Some (Wrapf ''claude execution'' e))
            | None \<Rightarrow>
                if Signal (claude r (claude_calls s) p) = SignalFailed
                then Return (Some (ErrorsNew ''task execution failed (FAILED signal received)''))
                else if Signal (claude r (claude_calls s) p) = SignalCompleted
                then Return None
                else Next (Output (claude r (claude_calls s) p)))"
      using taskIteration_prompt [of env r i lastO s] it by auto
    then show ?thesis
    proof cases
      case quiet
      then show ?thesis using le it by (auto simp: taskLoop_Return)
    next
      case (call p)
      let ?res = "claude r (claude_calls s) p"
      show ?thesis
      proof (cases f)
        case (Return e)
        have eq: "taskLoop env r i lastO s = (e, s1)"
          using le it Return by (simp add: taskLoop_Return)
        show ?thesis
          unfolding eq using call(1,2) by auto
      next
        case (Next out)
        let ?c = "claude_calls (snd (taskLoop env r (i + 1) out s1))"
        have eq: "taskLoop env r i lastO s = taskLoop env r (i + 1) out s1"
          using le it Next by (simp add: taskLoop_Next)
        have ih: "?P env r (i + 1) out s1"
          using "1.IH" [OF le it [symmetric] Next] .
        have inner: "take (Suc ?n) ?c = claude_calls s @ [p]" "Suc ?n \<le> length ?c"
          using taskLoop_calls [of s1 env r "i + 1" out] call(1) by simp_all
        have "take ?n ?c = take ?n (take (Suc ?n) ?c)" by simp
        also have "\<dots> = claude_calls s" unfolding inner(1) by simp
        finally have a: "take ?n ?c = claude_calls s" .
        have "?c ! ?n = take (Suc ?n) ?c ! ?n" by simp
        also have "\<dots> = p" unfolding inner(1) by simp
        finally have b: "?c ! ?n = p" .
        have r0: "resultAt (claude r) ?c ?n = ?res"
          using a b by (simp add: resultAt_def)
        have res: "Err ?res = None" "\<not> IsTerminalSignal (Signal ?res)" "out = Output ?res"
          using call(3) Next by (auto simp: IsTerminalSignal_def split: option.splits if_splits)
        show ?thesis
          unfolding eq
        proof (intro impI conjI allI)
          assume "i \<noteq> 1 \<and> ?n < length ?c"
          then show "?c ! ?n = buildContinuePrompt lastO" using b call(2) by simp
        next
          fix k
          assume i1: "1 \<le> i" and k: "?n \<le> k \<and> Suc k < length ?c"
          have next1: "1 \<le> i + 1" "i + 1 \<noteq> 1" using i1 by simp_all
          show "Err (resultAt (claude r) ?c k) = None"
            and "\<not> IsTerminalSignal (Signal (resultAt (claude r) ?c k))"
            and "?c ! Suc k = buildContinuePrompt (Output (resultAt (claude r) ?c k))"
          proof -
            have "Err (resultAt (claude r) ?c k) = None
              \<and> \<not> IsTerminalSignal (Signal (resultAt (claude r) ?c k))
              \<and> ?c ! Suc k = buildContinuePrompt (Output (resultAt (claude r) ?c k))"
            proof (cases "k = ?n")
              case True
              have "?c ! length (claude_calls s1) = buildContinuePrompt out"
                using ih next1 k True call(1) by simp
              then show ?thesis using True r0 res call(1) by simp
            next
              case False
              then have "length (claude_calls s1) \<le> k" using k call(1) by simp
              then show ?thesis using ih next1 k by blast
            qed
            then show "Err (resultAt (claude r) ?c k) = None"
              and "\<not> IsTerminalSignal (Signal (resultAt (claude r) ?c k))"
              and "?c ! Suc k = buildContinuePrompt (Output (resultAt (claude r) ?c k))"
              by simp_all
          qed
        qed
      qed
    qed
  qed
qed

text \<open>
  C7. In a Task phase and in a Review phase, every invocation that follows another one
  follows a result with no error and no terminal signal, and its prompt is the continue
  prompt built from the output of that result. For every previous output the continue
  prompt is the fixed head, then the whole output when it has at most 500 characters
  (bytes, as \<open>len\<close> counts them) and otherwise exactly its last 500, then the fixed
  tail: nothing else of the previous output is embedded.
\<close>

theorem continue_prompt_window:
  "(\<forall>k. length (claude_calls s) \<le> k
        \<and> Suc k < length (claude_calls (snd (runTaskPhase env r s))) \<longrightarrow>
       Err (resultAt (claude r) (claude_calls (snd (runTaskPhase env r s))) k) = None
     \<and> \<not> IsTerminalSignal
           (Signal (resultAt (claude r) (claude_calls (snd (runTaskPhase env r s))) k))
     \<and> claude_calls (snd (runTaskPhase env r s)) ! Suc k =
         buildContinuePrompt
           (Output (resultAt (claude r) (claude_calls (snd (runTaskPhase env r s))) k)))
   \<and> (\<forall>k. length (claude_calls s) \<le> k
        \<and> Suc k < length (claude_calls (snd (runClaudeReview env r prompt s))) \<longrightarrow>
       Err (resultAt (claude r) (claude_calls (snd (runClaudeReview env r prompt s))) k) = None
     \<and> Signal (resultAt (claude r) (claude_calls (snd (runClaudeReview env r prompt s))) k)
          \<noteq> SignalFailed
     \<and> Signal (resultAt (claude r) (claude_calls (snd (runClaudeReview env r prompt s))) k)
          \<noteq> SignalReviewDone
     \<and> claude_calls (snd (runClaudeReview env r prompt s)) ! Suc k =
         buildContinuePrompt
           (Output (resultAt (claude r) (claude_calls (snd (runClaudeReview env r prompt s))) k)))
   \<and> (\<forall>out. (length out \<le> 500 \<longrightarrow>
              buildContinuePrompt out = continueHead @ out @ continueTail)
           \<and> (500 < length out \<longrightarrow>
              buildContinuePrompt out
                = continueHead @ drop (length out - 500) out @ continueTail
            \<and> length (drop (length out - 500) out) = 500
            \<and> suffix (drop (length out - 500) out) out))"
proof -
  have shape: "\<forall>out. (length out \<le> 500 \<longrightarrow>
              buildContinuePrompt out = continueHead @ out @ continueTail)
           \<and> (500 < length out \<longrightarrow>
              buildContinuePrompt out
                = continueHead @ drop (length out - 500) out @ continueTail
            \<and> length (drop (length out - 500) out) = 500
            \<and> suffix (drop (length out - 500) out) out)"
    using buildContinuePrompt_shape by auto
  show ?thesis
    unfolding runTaskPhase_def runClaudeReview_def
    using taskLoop_prompts [of 1 s env r "[]", simplified]
      reviewLoop_results [of s env r 1 prompt, THEN conjunct1] shape
    by (intro conjI) blast+
qed

theorem continue_prompt_window_witness:
  "length (claude_calls (snd (runTaskPhase testEnv
      (testRunner ModeFull 10
         (mockExecutor [\<lparr>Output = replicate 600 CHR ''z'', Signal = [], Err = None\<rparr>,
                        \<lparr>Output = ''task done'', Signal = SignalCompleted, Err = None\<rparr>])
         (mockExecutor []))
      testState))) = 2
   \<and> claude_calls (snd (runTaskPhase testEnv
      (testRunner ModeFull 10
         (mockExecutor [\<lparr>Output = replicate 600 CHR ''z'', Signal = [], Err = None\<rparr>,
                        \<lparr>Output = ''task done'', Signal = SignalCompleted, Err = None\<rparr>])
         (mockExecutor []))
      testState)) ! 1
     = continueHead @ replicate 500 CHR ''z'' @ continueTail
   \<and> length (claude_calls (snd (runClaudeReview testEnv
      (testRunner ModeReview 10
         (mockExecutor [\<lparr>Output = ''short output'', Signal = [], Err = None\<rparr>,
                        \<lparr>Output = ''review done'', Signal = SignalReviewDone, Err = None\<rparr>])
         (mockExecutor []))
      buildFirstReviewPrompt testState))) = 2
   \<and> claude_calls (snd (runClaudeReview testEnv
      (testRunner ModeReview 10
         (mockExecutor [\<lparr>Output = ''short output'', Signal = [], Err = None\<rparr>,
                        \<lparr>Output = ''review done'', Signal = SignalReviewDone, Err = None\<rparr>])
         (mockExecutor []))
      buildFirstReviewPrompt testState)) ! 1
     = continueHead @ ''short output'' @ continueTail"
proof -
  let ?rt = "testRunner ModeFull 10
         (mockExecutor [\<lparr>Output = replicate 600 CHR ''z'', Signal = [], Err = None\<rparr>,
                        \<lparr>Output = ''task done'', Signal = SignalCompleted, Err = None\<rparr>])
         (mockExecutor [])"
  let ?rr = "testRunner ModeReview 10
         (mockExecutor [\<lparr>Output = ''short output'', Signal = [], Err = None\<rparr>,
                        \<lparr>Output = ''review done'', Signal = SignalReviewDone, Err = None\<rparr>])
         (mockExecutor [])"
  let ?ct = "claude_calls (snd (runTaskPhase testEnv ?rt testState))"
  let ?cr = "claude_calls (snd (runClaudeReview testEnv ?rr buildFirstReviewPrompt testState))"
  note inst_t = continue_prompt_window [of testState testEnv ?rt buildFirstReviewPrompt]
  note inst_r = continue_prompt_window [of testState testEnv ?rr buildFirstReviewPrompt]
  have "length (claude_calls (snd (runTaskPhase testEnv
      (testRunner ModeFull 10
         (mockExecutor [\<lparr>Output = out, Signal = [], Err = None\<rparr>,
                        \<lparr>Output = ''task done'', Signal = SignalCompleted, Err = None\<rparr>])
         (mockExecutor []))
      testState))) = 2" for out
    by (simp add: run_simps signal_defs buildTaskPrompt_def)
  then have lt: "length ?ct = 2" .
  have lr: "length ?cr = 2"
    by (simp add: run_simps signal_defs)
  have ht: "length (claude_calls testState) \<le> 0 \<and> Suc 0 < length ?ct"
    and hr: "length (claude_calls testState) \<le> 0 \<and> Suc 0 < length ?cr"
    using lt lr by (simp_all add: testState_def)
  have "resultAt (claude (testRunner ModeFull 10
         (mockExecutor [\<lparr>Output = out, Signal = [], Err = None\<rparr>,
                        \<lparr>Output = ''task done'', Signal = SignalCompleted, Err = None\<rparr>])
         (mockExecutor []))) calls 0
      = \<lparr>Output = out, Signal = [], Err = None\<rparr>" for out calls
    by (simp add: resultAt_def testRunner_def mockExecutor_def)
  then have rt: "resultAt (claude ?rt) ?ct 0
      = \<lparr>Output = replicate 600 CHR ''z'', Signal = [], Err = None\<rparr>" .
  have rr: "resultAt (claude ?rr) ?cr 0
      = \<lparr>Output = ''short output'', Signal = [], Err = None\<rparr>"
    by (simp add: resultAt_def testRunner_def mockExecutor_def)
  have "?ct ! Suc 0 = buildContinuePrompt (Output (resultAt (claude ?rt) ?ct 0))"
    using inst_t [THEN conjunct1, rule_format, of 0, OF ht] by (elim conjE)
  then have pt: "?ct ! 1 = buildContinuePrompt (replicate 600 CHR ''z'')"
    unfolding rt by (simp only: Result.simps One_nat_def)
  have "?cr ! Suc 0 = buildContinuePrompt (Output (resultAt (claude ?rr) ?cr 0))"
    using inst_r [THEN conjunct2, THEN conjunct1, rule_format, of 0, OF hr] by (elim conjE)
  then have pr: "?cr ! 1 = buildContinuePrompt ''short output''"
    unfolding rr by simp
  have wt: "buildContinuePrompt (replicate 600 CHR ''z'')
      = continueHead @ replicate 500 CHR ''z'' @ continueTail"
    using inst_t [THEN conjunct2, THEN conjunct2, rule_format, of "replicate 600 CHR ''z''"]
    by simp
  have wr: "buildContinuePrompt ''short output'' = continueHead @ ''short output'' @ continueTail"
    using inst_r [THEN conjunct2, THEN conjunct2, rule_format, of "''short output''"]
    by simp
  show ?thesis using lt lr pt pr wt wr by (simp only: simp_thms)
qed

end
